theory Spec2Isabelle
  imports Complex_Main "HOL-Library.Sublist" "HOL-Library.List_Lexorder"
begin

section \<open>JavaScript strings and objects\<close>

text \<open>
  A JavaScript string is a sequence of UTF-16 code units. The keyword tables of the
  scene detectors mix ASCII and Chinese text, and \<open>String.prototype.includes\<close>,
  \<open>startsWith\<close>, \<open>endsWith\<close> and the default \<open>Array.prototype.sort\<close> all work on
  code units, so a string is the list of its code units. A code unit is a natural
  number below 65536; the functions below only compare code units and never compute
  with them. ASCII literals are embedded with \<open>ascii\<close>; every other literal is
  written as its code units.
\<close>

type_synonym jsstring = "nat list"

definition ascii :: "string \<Rightarrow> jsstring" where
  "ascii s = map of_char s"

text \<open>\<open>content.includes(keyword)\<close>: the keyword occurs at some position of the content.\<close>

fun js_includes :: "jsstring \<Rightarrow> jsstring \<Rightarrow> bool" where
  "js_includes [] k = (k = [])"
| "js_includes (c # cs) k = (prefix k (c # cs) \<or> js_includes cs k)"

text \<open>
  An object with string keys that are not array indices enumerates its keys in insertion
  order (\<open>Object.entries\<close>, \<open>Object.keys\<close>): an association list. Assigning to an
  existing key keeps its position; a new key goes to the end.
\<close>

type_synonym 'v js_object = "(jsstring \<times> 'v) list"

fun obj_set :: "jsstring \<Rightarrow> 'v \<Rightarrow> 'v js_object \<Rightarrow> 'v js_object" where
  "obj_set k v [] = [(k, v)]"
| "obj_set k v ((k', v') # rest) =
     (if k = k' then (k, v) # rest else (k', v') # obj_set k v rest)"

definition obj_get :: "'v js_object \<Rightarrow> jsstring \<Rightarrow> 'v option" where
  "obj_get obj k = map_of obj k"

datatype js_error = TypeError | SyntaxError | RangeError | Error jsstring

section \<open>Scene detection\<close>

text \<open>The keyword table of \<open>src/lib/sceneDetector.ts\<close>, in declaration order.\<close>

definition SCENE_KEYWORDS :: "(jsstring \<times> jsstring list) list" where
  "SCENE_KEYWORDS =
    [(ascii ''product/weekly'',
       [[0x4EA7, 0x54C1, 0x5468, 0x4F1A], [0x4E0A, 0x5468], [0x672C, 0x5468],
        [0x9700, 0x6C42], [0x6392, 0x671F], [0x4E0A, 0x7EBF], [0x8FED, 0x4EE3],
        ascii ''sprint'', ascii ''feature'', ascii ''roadmap'']),
     (ascii ''product/review'',
       [[0x9700, 0x6C42, 0x8BC4, 0x5BA1], ascii ''PRD'', [0x8BC4, 0x5BA1], ascii ''Story'',
        [0x7528, 0x6237, 0x6545, 0x4E8B], [0x9A8C, 0x6536, 0x6807, 0x51C6],
        [0x4F18, 0x5148, 0x7EA7]]),
     (ascii ''product/launch'',
       [[0x4EA7, 0x54C1, 0x53D1, 0x5E03], [0x53D1, 0x5E03, 0x4F1A],
        [0x65B0, 0x529F, 0x80FD], [0x4EAE, 0x70B9], [0x6F14, 0x793A], ascii ''release'',
        ascii ''launch'']),
     (ascii ''marketing/weekly'',
       [[0x8425, 0x9500, 0x5468, 0x4F1A], [0x6295, 0x653E], [0x8F6C, 0x5316],
        [0x66DD, 0x5149], [0x6D3B, 0x52A8], ascii ''GMV'', [0x4E1A, 0x7EE9]]),
     (ascii ''marketing/campaign'',
       [[0x7B56, 0x5212], [0x65B9, 0x6848], [0x521B, 0x610F],
        [0x76EE, 0x6807, 0x4EBA, 0x7FA4], [0x8425, 0x9500, 0x6D3B, 0x52A8],
        ascii ''campaign'']),
     (ascii ''marketing/brand'',
       [[0x54C1, 0x724C], [0x5B9A, 0x4F4D], [0x5DEE, 0x5F02, 0x5316],
        [0x4EF7, 0x503C, 0x89C2], [0x54C1, 0x724C, 0x7B56, 0x7565], ascii ''brand'']),
     (ascii ''marketing/partnership'',
       [[0x5408, 0x4F5C], [0x6D3D, 0x8C08], [0x4F19, 0x4F34], [0x6E20, 0x9053],
        ascii ''partnership'']),
     (ascii ''sales/meeting'',
       [[0x9500, 0x552E, 0x4F1A, 0x8BAE], [0x4E1A, 0x7EE9], [0x76EE, 0x6807],
        [0x5BA2, 0x6237], [0x7B7E, 0x7EA6], [0x8DDF, 0x8FDB]]),
     (ascii ''sales/negotiation'',
       [[0x8C08, 0x5224], [0x62A5, 0x4EF7], [0x5408, 0x540C], [0x8BA9, 0x6B65],
        [0x7B7E, 0x7EA6], [0x4EF7, 0x683C]]),
     (ascii ''sales/channel'',
       [[0x6E20, 0x9053], [0x7ECF, 0x9500, 0x5546], [0x4EE3, 0x7406], [0x5206, 0x9500],
        ascii ''channel'']),
     (ascii ''strategy/meeting'',
       [[0x6218, 0x7565], [0x4E09, 0x5E74, 0x89C4, 0x5212], [0x613F, 0x666F],
        [0x7ADE, 0x4E89], [0x683C, 0x5C40], ascii ''strategy'']),
     (ascii ''strategy/management'',
       [[0x7BA1, 0x7406, 0x5C42], [0x4F8B, 0x4F1A], [0x7ECF, 0x8425], ascii ''CEO'',
        [0x603B, 0x88C1], [0x9AD8, 0x7BA1]]),
     (ascii ''strategy/review'',
       [[0x590D, 0x76D8], [0x603B, 0x7ED3], [0x7ECF, 0x9A8C], [0x6559, 0x8BAD],
        [0x56DE, 0x987E], ascii ''review'']),
     (ascii ''hr/interview'',
       [[0x9762, 0x8BD5], [0x81EA, 0x6211, 0x4ECB, 0x7ECD],
        [0x9879, 0x76EE, 0x7ECF, 0x5386], [0x79BB, 0x804C, 0x539F, 0x56E0],
        [0x4F18, 0x52BF], [0x9762, 0x8BD5, 0x5B98]]),
     (ascii ''hr/performance'',
       [[0x7EE9, 0x6548], [0x8003, 0x6838], ascii ''KPI'', [0x9762, 0x8C08],
        [0x8BC4, 0x5206]]),
     (ascii ''hr/exit'',
       [[0x79BB, 0x804C], [0x8F9E, 0x804C], [0x9000, 0x51FA], [0x9762, 0x8C08],
        [0x4EA4, 0x63A5]]),
     (ascii ''hr/team'',
       [[0x56E2, 0x5EFA], [0x56E2, 0x961F, 0x5EFA, 0x8BBE], [0x6D3B, 0x52A8],
        [0x805A, 0x9910], ascii ''team building'']),
     (ascii ''rd/tech-review'',
       [[0x6280, 0x672F, 0x8BC4, 0x5BA1], [0x67B6, 0x6784],
        [0x6280, 0x672F, 0x65B9, 0x6848], [0x53EF, 0x884C, 0x6027], [0x98CE, 0x9669],
        ascii ''review'']),
     (ascii ''rd/planning'',
       [[0x6392, 0x671F], [0x8BA1, 0x5212], [0x5DE5, 0x671F], [0x91CC, 0x7A0B, 0x7891],
        [0x6392, 0x671F, 0x4F1A]]),
     (ascii ''rd/incident'',
       [[0x6545, 0x969C], [0x95EE, 0x9898], ascii ''incident'', ascii ''bug'',
        [0x7D27, 0x6025], ascii ''P0'', ascii ''P1'']),
     (ascii ''other/finance'',
       [[0x8D22, 0x52A1], [0x9884, 0x7B97], [0x6210, 0x672C], [0x5229, 0x6DA6],
        [0x8425, 0x6536], ascii ''finance'']),
     (ascii ''other/legal'',
       [[0x6CD5, 0x52A1], [0x5408, 0x89C4], [0x5408, 0x540C], [0x6CD5, 0x5F8B],
        ascii ''legal'', ascii ''compliance''])]"

text \<open>The keyword table of the engine's \<open>sceneDetector\<close>; only \<open>hr/interview\<close> differs.\<close>

definition SCENE_KEYWORDS_engine :: "(jsstring \<times> jsstring list) list" where
  "SCENE_KEYWORDS_engine =
    [(ascii ''product/weekly'',
       [[0x4EA7, 0x54C1, 0x5468, 0x4F1A], [0x4E0A, 0x5468], [0x672C, 0x5468],
        [0x9700, 0x6C42], [0x6392, 0x671F], [0x4E0A, 0x7EBF], [0x8FED, 0x4EE3],
        ascii ''sprint'', ascii ''feature'', ascii ''roadmap'']),
     (ascii ''product/review'',
       [[0x9700, 0x6C42, 0x8BC4, 0x5BA1], ascii ''PRD'', [0x8BC4, 0x5BA1], ascii ''Story'',
        [0x7528, 0x6237, 0x6545, 0x4E8B], [0x9A8C, 0x6536, 0x6807, 0x51C6],
        [0x4F18, 0x5148, 0x7EA7]]),
     (ascii ''product/launch'',
       [[0x4EA7, 0x54C1, 0x53D1, 0x5E03], [0x53D1, 0x5E03, 0x4F1A],
        [0x65B0, 0x529F, 0x80FD], [0x4EAE, 0x70B9], [0x6F14, 0x793A], ascii ''release'',
        ascii ''launch'']),
     (ascii ''marketing/weekly'',
       [[0x8425, 0x9500, 0x5468, 0x4F1A], [0x6295, 0x653E], [0x8F6C, 0x5316],
        [0x66DD, 0x5149], [0x6D3B, 0x52A8], ascii ''GMV'', [0x4E1A, 0x7EE9]]),
     (ascii ''marketing/campaign'',
       [[0x7B56, 0x5212], [0x65B9, 0x6848], [0x521B, 0x610F],
        [0x76EE, 0x6807, 0x4EBA, 0x7FA4], [0x8425, 0x9500, 0x6D3B, 0x52A8],
        ascii ''campaign'']),
     (ascii ''marketing/brand'',
       [[0x54C1, 0x724C], [0x5B9A, 0x4F4D], [0x5DEE, 0x5F02, 0x5316],
        [0x4EF7, 0x503C, 0x89C2], [0x54C1, 0x724C, 0x7B56, 0x7565], ascii ''brand'']),
     (ascii ''marketing/partnership'',
       [[0x5408, 0x4F5C], [0x6D3D, 0x8C08], [0x4F19, 0x4F34], [0x6E20, 0x9053],
        ascii ''partnership'']),
     (ascii ''sales/meeting'',
       [[0x9500, 0x552E, 0x4F1A, 0x8BAE], [0x4E1A, 0x7EE9], [0x76EE, 0x6807],
        [0x5BA2, 0x6237], [0x7B7E, 0x7EA6], [0x8DDF, 0x8FDB]]),
     (ascii ''sales/negotiation'',
       [[0x8C08, 0x5224], [0x62A5, 0x4EF7], [0x5408, 0x540C], [0x8BA9, 0x6B65],
        [0x7B7E, 0x7EA6], [0x4EF7, 0x683C]]),
     (ascii ''sales/channel'',
       [[0x6E20, 0x9053], [0x7ECF, 0x9500, 0x5546], [0x4EE3, 0x7406], [0x5206, 0x9500],
        ascii ''channel'']),
     (ascii ''strategy/meeting'',
       [[0x6218, 0x7565], [0x4E09, 0x5E74, 0x89C4, 0x5212], [0x613F, 0x666F],
        [0x7ADE, 0x4E89], [0x683C, 0x5C40], ascii ''strategy'']),
     (ascii ''strategy/management'',
       [[0x7BA1, 0x7406, 0x5C42], [0x4F8B, 0x4F1A], [0x7ECF, 0x8425], ascii ''CEO'',
        [0x603B, 0x88C1], [0x9AD8, 0x7BA1]]),
     (ascii ''strategy/review'',
       [[0x590D, 0x76D8], [0x603B, 0x7ED3], [0x7ECF, 0x9A8C], [0x6559, 0x8BAD],
        [0x56DE, 0x987E], ascii ''review'']),
     (ascii ''hr/interview'',
       [[0x9762, 0x8BD5], [0x81EA, 0x6211, 0x4ECB, 0x7ECD],
        [0x9879, 0x76EE, 0x7ECF, 0x5386], [0x79BB, 0x804C], [0x4F18, 0x52BF],
        [0x9762, 0x8BD5, 0x5B98], [0x85AA, 0x8D44], [0x5230, 0x5C97], [0x85AA, 0x916C],
        [0x5DE5, 0x8D44], [0x671F, 0x671B], [0x5C97, 0x4F4D], [0x5165, 0x804C],
        ascii ''offer'', [0x5F55, 0x7528], [0x62DB, 0x8058], [0x6C42, 0x804C, 0x8005],
        [0x5DE5, 0x4F5C, 0x7ECF, 0x9A8C], [0x6280, 0x80FD, 0x7279, 0x957F],
        [0x804C, 0x4E1A, 0x89C4, 0x5212], [0x5F85, 0x9047], [0x85AA, 0x6C34],
        [0x5956, 0x91D1], [0x798F, 0x5229], [0x7EA7, 0x522B], [0x5E94, 0x8058],
        [0x804C, 0x4F4D], [0x590D, 0x8BD5], [0x7EC8, 0x9762], [0x7B14, 0x8BD5],
        [0x521D, 0x8BD5], [0x4EBA, 0x529B], [0x6C9F, 0x901A], [0x52A0, 0x73ED],
        [0x53CC, 0x4F11], [0x5341, 0x4E09, 0x85AA], [0x80A1, 0x7968], [0x671F, 0x6743]]),
     (ascii ''hr/performance'',
       [[0x7EE9, 0x6548], [0x8003, 0x6838], ascii ''KPI'', [0x9762, 0x8C08],
        [0x8BC4, 0x5206]]),
     (ascii ''hr/exit'',
       [[0x79BB, 0x804C], [0x8F9E, 0x804C], [0x9000, 0x51FA], [0x9762, 0x8C08],
        [0x4EA4, 0x63A5]]),
     (ascii ''hr/team'',
       [[0x56E2, 0x5EFA], [0x56E2, 0x961F, 0x5EFA, 0x8BBE], [0x6D3B, 0x52A8],
        [0x805A, 0x9910], ascii ''team building'']),
     (ascii ''rd/tech-review'',
       [[0x6280, 0x672F, 0x8BC4, 0x5BA1], [0x67B6, 0x6784],
        [0x6280, 0x672F, 0x65B9, 0x6848], [0x53EF, 0x884C, 0x6027], [0x98CE, 0x9669],
        ascii ''review'']),
     (ascii ''rd/planning'',
       [[0x6392, 0x671F], [0x8BA1, 0x5212], [0x5DE5, 0x671F], [0x91CC, 0x7A0B, 0x7891],
        [0x6392, 0x671F, 0x4F1A]]),
     (ascii ''rd/incident'',
       [[0x6545, 0x969C], [0x95EE, 0x9898], ascii ''incident'', ascii ''bug'',
        [0x7D27, 0x6025], ascii ''P0'', ascii ''P1'']),
     (ascii ''other/finance'',
       [[0x8D22, 0x52A1], [0x9884, 0x7B97], [0x6210, 0x672C], [0x5229, 0x6DA6],
        [0x8425, 0x6536], ascii ''finance'']),
     (ascii ''other/legal'',
       [[0x6CD5, 0x52A1], [0x5408, 0x89C4], [0x5408, 0x540C], [0x6CD5, 0x5F8B],
        ascii ''legal'', ascii ''compliance''])]"

record detection =
  scene :: jsstring
  confidence :: rat
  "keywords" :: "jsstring list"
  allScores :: "nat js_object"

text \<open>
  The inner loop over one scene's keywords: \<open>scores[scene] += 1\<close> and
  \<open>foundKeywords[scene].push(keyword)\<close> for every keyword the content includes.
\<close>

fun match_keywords :: "jsstring \<Rightarrow> jsstring list \<Rightarrow> nat \<times> jsstring list \<Rightarrow> nat \<times> jsstring list" where
  "match_keywords c [] (score, found) = (score, found)"
| "match_keywords c (keyword # rest) (score, found) =
     (if js_includes c keyword
      then match_keywords c rest (score + 1, found @ [keyword])
      else match_keywords c rest (score, found))"

text \<open>
  The outer loop over \<open>Object.entries(SCENE_KEYWORDS)\<close>, filling both objects. The
  source first assigns 0 and the empty array to the scene's entries and then updates
  them in the inner loop; the model assigns the final values once, which leaves the same
  objects in the same key order.
\<close>

fun score_scenes ::
  "jsstring \<Rightarrow> (jsstring \<times> jsstring list) list \<Rightarrow>
   nat js_object \<times> jsstring list js_object \<Rightarrow> nat js_object \<times> jsstring list js_object" where
  "score_scenes c [] (scores, foundKeywords) = (scores, foundKeywords)"
| "score_scenes c ((scn, kws) # rest) (scores, foundKeywords) =
     (case match_keywords c kws (0, []) of
        (score, found) \<Rightarrow>
          score_scenes c rest (obj_set scn score scores, obj_set scn found foundKeywords))"

text \<open>
  The search for the best scene. \<open>bestKeywords = foundKeywords[scene]\<close> is a property
  read, \<open>undefined\<close> (here \<open>None\<close>) for a missing key. \<open>detectScene\<close> compares with
  \<open>score > maxScore\<close>, the engine's \<open>detect\<close> with \<open>score >= maxScore\<close>.
\<close>

fun best_scene_gt ::
  "nat js_object \<Rightarrow> jsstring list js_object \<Rightarrow>
   nat \<times> jsstring \<times> jsstring list option \<Rightarrow> nat \<times> jsstring \<times> jsstring list option" where
  "best_scene_gt [] fk st = st"
| "best_scene_gt ((scn, score) # rest) fk (maxScore, bestScene, bestKeywords) =
     (if score > maxScore
      then best_scene_gt rest fk (score, scn, obj_get fk scn)
      else best_scene_gt rest fk (maxScore, bestScene, bestKeywords))"

fun best_scene_ge ::
  "nat js_object \<Rightarrow> jsstring list js_object \<Rightarrow>
   nat \<times> jsstring \<times> jsstring list option \<Rightarrow> nat \<times> jsstring \<times> jsstring list option" where
  "best_scene_ge [] fk st = st"
| "best_scene_ge ((scn, score) # rest) fk (maxScore, bestScene, bestKeywords) =
     (if score \<ge> maxScore
      then best_scene_ge rest fk (score, scn, obj_get fk scn)
      else best_scene_ge rest fk (maxScore, bestScene, bestKeywords))"

text \<open>
  Steps 3 and 4, the same in both detectors: the confidence, the low-confidence
  override and the result. \<open>detectScene\<close> takes the content, \<open>detect\<close> an input object
  of which it reads the content only. JavaScript numbers are modelled as exact rationals: the
  confidence is 0.3 or \<open>min (maxScore / 3) 1\<close> for a natural number \<open>maxScore\<close>, and the
  comparison with the literal 0.3 comes out the same on IEEE doubles. Calling
  \<open>slice\<close> on \<open>undefined\<close> throws a TypeError.
\<close>

definition fallback_keyword :: jsstring where
  "fallback_keyword = [0x4F1A, 0x8BAE]"

definition finish_detection ::
  "nat js_object \<Rightarrow> nat \<times> jsstring \<times> jsstring list option \<Rightarrow> js_error + detection" where
  "finish_detection scores st =
     (case st of (maxScore, bestScene, bestKeywords) \<Rightarrow>
        (let conf = (if maxScore > 0 then min (of_nat maxScore / 3) 1 else 3 / 10) in
           (case (if conf < 3 / 10 then (ascii ''product/weekly'', Some [fallback_keyword])
                  else (bestScene, bestKeywords)) of
              (bestScene', bestKeywords') \<Rightarrow>
                (case bestKeywords' of
                   None \<Rightarrow> Inl TypeError
                 | Some ks \<Rightarrow>
                     Inr \<lparr>scene = bestScene', confidence = conf, keywords = take 5 ks,
                          allScores = scores\<rparr>))))"

definition detectScene :: "jsstring \<Rightarrow> js_error + detection" where
  "detectScene c =
     (case score_scenes c SCENE_KEYWORDS ([], []) of
        (scores, foundKeywords) \<Rightarrow>
          finish_detection scores
            (best_scene_gt scores foundKeywords (0, ascii ''other/finance'', Some [])))"

definition detect :: "jsstring \<Rightarrow> js_error + detection" where
  "detect c =
     (case score_scenes c SCENE_KEYWORDS_engine ([], []) of
        (scores, foundKeywords) \<Rightarrow>
          finish_detection scores
            (best_scene_ge scores foundKeywords (0, ascii ''other/finance'', Some [])))"


subsection \<open>The loops in closed form\<close>

text \<open>
  Both detectors are functions of one table: for every scene, in declaration order, the
  keywords of the scene that the content includes. The score of a scene is the length
  of its entry. The definitions below are proof devices; the lemmas after them connect
  them to the loops of the source.
\<close>

definition hits :: "jsstring \<Rightarrow> jsstring list \<Rightarrow> jsstring list" where
  "hits c kws = filter (js_includes c) kws"

definition found_entry :: "jsstring \<Rightarrow> jsstring \<times> jsstring list \<Rightarrow> jsstring \<times> jsstring list" where
  "found_entry c e = (fst e, hits c (snd e))"

definition score_entry :: "jsstring \<times> jsstring list \<Rightarrow> jsstring \<times> nat" where
  "score_entry e = (fst e, length (snd e))"

fun best_gt_found ::
  "jsstring list js_object \<Rightarrow>
   nat \<times> jsstring \<times> jsstring list option \<Rightarrow> nat \<times> jsstring \<times> jsstring list option" where
  "best_gt_found [] st = st"
| "best_gt_found ((scn, found) # rest) (maxScore, bestScene, bestKeywords) =
     (if length found > maxScore
      then best_gt_found rest (length found, scn, Some found)
      else best_gt_found rest (maxScore, bestScene, bestKeywords))"

fun best_ge_found ::
  "jsstring list js_object \<Rightarrow>
   nat \<times> jsstring \<times> jsstring list option \<Rightarrow> nat \<times> jsstring \<times> jsstring list option" where
  "best_ge_found [] st = st"
| "best_ge_found ((scn, found) # rest) (maxScore, bestScene, bestKeywords) =
     (if length found \<ge> maxScore
      then best_ge_found rest (length found, scn, Some found)
      else best_ge_found rest (maxScore, bestScene, bestKeywords))"

text \<open>The maximum of the scores of an \<open>allScores\<close> object (0 for the empty object).\<close>

definition max_score :: "nat js_object \<Rightarrow> nat" where
  "max_score scores = fold max (map snd scores) 0"

text \<open>
  The two tie-breaking rules as the specification words them: the first, and the last,
  scene of the object whose score is the maximal score.
\<close>

definition first_max_scene :: "nat js_object \<Rightarrow> jsstring option" where
  "first_max_scene scores =
     map_option fst (find (\<lambda>e. snd e = max_score scores) scores)"

definition last_max_scene :: "nat js_object \<Rightarrow> jsstring option" where
  "last_max_scene scores =
     map_option fst (find (\<lambda>e. snd e = max_score scores) (rev scores))"

text \<open>The content includes no keyword of the table.\<close>

definition no_keyword_in :: "(jsstring \<times> jsstring list) list \<Rightarrow> jsstring \<Rightarrow> bool" where
  "no_keyword_in tbl c = (\<forall>e \<in> set tbl. \<forall>k \<in> set (snd e). \<not> js_includes c k)"



text \<open>A component of a detector's result (\<open>None\<close> if the detector threw).\<close>

definition returned :: "(detection \<Rightarrow> 'a) \<Rightarrow> js_error + detection \<Rightarrow> 'a option" where
  "returned f res = (case res of Inl _ \<Rightarrow> None | Inr r \<Rightarrow> Some (f r))"

text \<open>The \<open>allScores\<close> object in which every scene of the table has score 0.\<close>

definition zero_scores :: "(jsstring \<times> jsstring list) list \<Rightarrow> nat js_object" where
  "zero_scores tbl = map (\<lambda>e. (fst e, 0)) tbl"

text \<open>The content of the end-to-end scenario: the four keywords of the weekly product
  meeting, separated by spaces.\<close>

definition weekly_content :: jsstring where
  "weekly_content =
     [0x4EA7, 0x54C1, 0x5468, 0x4F1A, 0x0020, 0x672C, 0x5468, 0x0020,
      0x9700, 0x6C42, 0x0020, 0x6392, 0x671F]"

text \<open>A content that two scenes match with one keyword each: the word for a sales
  channel, a keyword of \<open>marketing/partnership\<close> and of \<open>sales/channel\<close>.\<close>

definition channel_content :: jsstring where
  "channel_content = [0x6E20, 0x9053]"



text \<open>The confidence of step 3 as a function of the maximal score.\<close>

definition conf_of :: "nat \<Rightarrow> rat" where
  "conf_of m = (if m > 0 then min (of_nat m / 3) 1 else 3 / 10)"

section \<open>Prompt version store\<close>

text \<open>
  The store of \<open>src/lib/storage.ts\<close> keeps, under \<open>DIRS.prompts\<close>, one directory per
  scene and the index file \<open>_meta/index.json\<close>. For a scene \<open>s\<close>, \<open>prompts st s\<close> is the
  listing of the directory that \<open>join(DIRS.prompts, s)\<close> names, or \<open>None\<close> where there
  is no such directory. A directory is the association list of its entries (name and
  content); an entry shadowed by an earlier entry of the same name is not part of the
  directory, so a listing names every entry once. A path below \<open>DIRS.prompts\<close> is the
  pair of the scene and the file name. File names are compared as they are written (a
  case-sensitive file system), and an operation on a scene is followed in the
  directory of that scene only. Failures of the file system other than a missing
  directory are outside the model.
\<close>

type_synonym directory = "jsstring js_object"

type_synonym path = "jsstring \<times> jsstring"

text \<open>
  \<open>updatePromptIndex\<close> hands the text of the index file to \<open>JSON.parse\<close>, works on
  whatever value comes out, and writes the value back with \<open>JSON.stringify\<close>. So the
  index file is absent, or is a text that \<open>JSON.parse\<close> rejects, or holds a JSON
  value of any shape. The members of a JSON object are listed in the order of the
  text, a new member goes to the end (JavaScript moves keys that are array indices to
  the front; the functions below read members by key only), and a JSON number is a
  rational (a numeral beyond the range of a double, which parses to \<open>Infinity\<close>, is
  left out).
\<close>

datatype json =
    JNull
  | JBool bool
  | JNum rat
  | JStr jsstring
  | JArr "json list"
  | JObj "(jsstring \<times> json) list"

datatype index_file = No_index | Bad_index | Index json

record store =
  prompts :: "jsstring \<rightharpoonup> directory"
  index_json :: index_file

definition readdirSync :: "directory \<Rightarrow> jsstring list" where
  "readdirSync d = remdups (map fst d)"

definition existsSync :: "directory \<Rightarrow> jsstring \<Rightarrow> bool" where
  "existsSync d f = (f \<in> set (map fst d))"

definition read_file :: "store \<Rightarrow> path \<Rightarrow> jsstring option" where
  "read_file st p = (case prompts st (fst p) of None \<Rightarrow> None | Some d \<Rightarrow> obj_get d (snd p))"

text \<open>\<open>mkdirSync(dir, { recursive: true })\<close> behind \<open>!existsSync(dir)\<close>.\<close>

definition ensure_dir :: "jsstring \<Rightarrow> store \<Rightarrow> store" where
  "ensure_dir scn st =
     (case prompts st scn of
        None \<Rightarrow> st\<lparr>prompts := (prompts st)(scn \<mapsto> [])\<rparr>
      | Some d \<Rightarrow> st)"

text \<open>\<open>writeFileSync\<close> fails when the directory is missing.\<close>

definition writeFileSync :: "path \<Rightarrow> jsstring \<Rightarrow> store \<Rightarrow> js_error + store" where
  "writeFileSync p content st =
     (case prompts st (fst p) of
        None \<Rightarrow> Inl (Error (ascii ''ENOENT''))
      | Some d \<Rightarrow> Inr (st\<lparr>prompts := (prompts st)(fst p \<mapsto> obj_set (snd p) content d)\<rparr>))"

definition startsWith :: "jsstring \<Rightarrow> jsstring \<Rightarrow> bool" where
  "startsWith s p = prefix p s"

definition endsWith :: "jsstring \<Rightarrow> jsstring \<Rightarrow> bool" where
  "endsWith s p = suffix p s"

text \<open>The filter of both listings: \<open>f.startsWith('v') && f.endsWith('.md')\<close>.\<close>

definition is_version_file :: "jsstring \<Rightarrow> bool" where
  "is_version_file f = (startsWith f (ascii ''v'') \<and> endsWith f (ascii ''.md''))"

text \<open>
  The decimal digits of a version number, as the template literal prints it (numbers
  below \<open>10^21\<close> print without an exponent).
\<close>

function decimal :: "nat \<Rightarrow> jsstring" where
  "decimal n = (if n < 10 then [48 + n] else decimal (n div 10) @ [48 + n mod 10])"
  by pat_completeness auto
termination
  by (relation "measure id") auto

declare decimal.simps [simp del]

text \<open>\<open>s.replace(pat, rep)\<close> with a string pattern replaces its first occurrence.\<close>

fun replace_first :: "jsstring \<Rightarrow> jsstring \<Rightarrow> jsstring \<Rightarrow> jsstring" where
  "replace_first pat rep [] = (if pat = [] then rep else [])"
| "replace_first pat rep (c # cs) =
     (if prefix pat (c # cs) then rep @ drop (length pat) (c # cs)
      else c # replace_first pat rep cs)"

text \<open>
  \<open>listPromptVersions\<close>: the version name and the path of every version file. The
  modification time read by \<open>statSync\<close> is left out, and so is the final sort by
  \<open>localeCompare\<close>, which permutes the list: \<open>savePromptVersion\<close> uses its length only.
\<close>

definition listPromptVersions :: "store \<Rightarrow> jsstring \<Rightarrow> (jsstring \<times> path) list" where
  "listPromptVersions st scn =
     (case prompts st scn of
        None \<Rightarrow> []
      | Some d \<Rightarrow>
          map (\<lambda>f. (replace_first (ascii ''.md'') [] f, (scn, f)))
            (filter is_version_file (readdirSync d)))"

text \<open>The truth value of a JSON value in a condition such as \<open>!index.scenes[scene]\<close>.\<close>

fun truthy :: "json \<Rightarrow> bool" where
  "truthy JNull = False"
| "truthy (JBool b) = b"
| "truthy (JNum n) = (n \<noteq> 0)"
| "truthy (JStr s) = (s \<noteq> [])"
| "truthy (JArr xs) = True"
| "truthy (JObj ms) = True"

text \<open>
  Reading a property that an object does not own continues in its prototype. An object
  literal and an object built by \<open>JSON.parse\<close> inherit the properties of
  \<open>Object.prototype\<close>; an array inherits those of \<open>Array.prototype\<close> (listed as of
  ECMAScript 2023) and, behind them, those of \<open>Object.prototype\<close>. Every one of these
  inherited values is a function or an object without a property \<open>versions\<close>.
\<close>

definition object_prototype_names :: "jsstring list" where
  "object_prototype_names =
     [ascii ''constructor'', ascii ''__defineGetter__'', ascii ''__defineSetter__'',
      ascii ''hasOwnProperty'', ascii ''__lookupGetter__'', ascii ''__lookupSetter__'',
      ascii ''isPrototypeOf'', ascii ''propertyIsEnumerable'', ascii ''toString'',
      ascii ''valueOf'', ascii ''__proto__'', ascii ''toLocaleString'']"

definition array_prototype_names :: "jsstring list" where
  "array_prototype_names =
     [ascii ''at'', ascii ''concat'', ascii ''copyWithin'', ascii ''fill'', ascii ''find'',
      ascii ''findIndex'', ascii ''findLast'', ascii ''findLastIndex'', ascii ''lastIndexOf'',
      ascii ''pop'', ascii ''push'', ascii ''reverse'', ascii ''shift'', ascii ''unshift'',
      ascii ''slice'', ascii ''sort'', ascii ''splice'', ascii ''includes'', ascii ''indexOf'',
      ascii ''join'', ascii ''keys'', ascii ''entries'', ascii ''values'', ascii ''forEach'',
      ascii ''filter'', ascii ''flat'', ascii ''flatMap'', ascii ''map'', ascii ''every'',
      ascii ''some'', ascii ''reduce'', ascii ''reduceRight'', ascii ''toReversed'',
      ascii ''toSorted'', ascii ''toSpliced'', ascii ''with'']"

text \<open>
  A property name is an array index when it is the decimal form of a number below
  \<open>2^32 - 1\<close>.
\<close>

definition digits_value :: "jsstring \<Rightarrow> nat" where
  "digits_value s = foldl (\<lambda>acc d. 10 * acc + (d - 48)) 0 s"

definition array_index :: "jsstring \<Rightarrow> nat option" where
  "array_index s =
     (if s = decimal (digits_value s) \<and> digits_value s < 4294967295
      then Some (digits_value s) else None)"

text \<open>
  The record \<open>{ versions: [], current_version: null }\<close> of a new scene, and the entry
  \<open>{ id, created_at, note }\<close> of a version; \<open>now\<close> is the time stamp
  \<open>new Date().toISOString()\<close>.
\<close>

definition fresh_scene :: json where
  "fresh_scene = JObj [(ascii ''versions'', JArr []), (ascii ''current_version'', JNull)]"

definition version_entry :: "nat \<Rightarrow> jsstring \<Rightarrow> jsstring \<Rightarrow> json" where
  "version_entry version now nt =
     JObj [(ascii ''id'', JStr (ascii ''v'' @ decimal version)),
           (ascii ''created_at'', JStr now),
           (ascii ''note'', JStr nt)]"

text \<open>
  \<open>r.versions.push(e); r.current_version = id\<close> on the value \<open>r\<close> that
  \<open>index.scenes[scene]\<close> holds. \<open>r.versions\<close> is \<open>undefined\<close> unless \<open>r\<close> is an object
  that owns \<open>versions\<close>, and \<open>push\<close> is a function only on an array: every other case
  throws \<open>TypeError\<close>.
\<close>

definition push_version :: "json \<Rightarrow> json \<Rightarrow> jsstring \<Rightarrow> js_error + json" where
  "push_version r e vid =
     (case r of
        JObj ms \<Rightarrow>
          (case obj_get ms (ascii ''versions'') of
             Some (JArr ws) \<Rightarrow>
               Inr (JObj (obj_set (ascii ''current_version'') (JStr vid)
                      (obj_set (ascii ''versions'') (JArr (ws @ [e])) ms)))
           | _ \<Rightarrow> Inl TypeError)
      | _ \<Rightarrow> Inl TypeError)"

text \<open>
  \<open>if (!x) x = { versions: [], current_version: null }\<close> followed by the push, for a
  property \<open>x\<close> that the object owns with the value \<open>slot\<close>, or that it neither owns
  nor inherits (\<open>None\<close>).
\<close>

definition init_and_push :: "json option \<Rightarrow> json \<Rightarrow> jsstring \<Rightarrow> js_error + json" where
  "init_and_push slot e vid =
     (case slot of
        None \<Rightarrow> push_version fresh_scene e vid
      | Some r \<Rightarrow> push_version (if truthy r then r else fresh_scene) e vid)"

text \<open>
  The three statements on \<open>index.scenes[scene]\<close>, by the value of \<open>index.scenes\<close>.

  \<^item> An object: an own property is read and updated; a name that is not owned but
    inherited from \<open>Object.prototype\<close> reads as a truthy value without \<open>versions\<close>, so
    the initialisation is skipped and the push throws \<open>TypeError\<close>; any other name is a
    new property.
  \<^item> An array: an index within the array reads the element, an index beyond it extends
    the array, and the elements skipped are written as \<open>null\<close>; \<open>length\<close> reads as a
    number, and assigning the record to it when it is 0 throws \<open>RangeError\<close>; an
    inherited name throws as for an object; any other name becomes a property that
    \<open>JSON.stringify\<close> does not write, so the array is written back as it was. (The
    limit on the length of the text that \<open>JSON.stringify\<close> builds is not modelled.)
  \<^item> \<open>null\<close>: reading a property throws \<open>TypeError\<close>. A boolean, a number or a string:
    the property read is a truthy value without \<open>versions\<close>, or it is \<open>undefined\<close> and
    the assignment does not create it; either way the push throws \<open>TypeError\<close>.
\<close>

definition update_scenes :: "json \<Rightarrow> jsstring \<Rightarrow> json \<Rightarrow> jsstring \<Rightarrow> js_error + json" where
  "update_scenes scenes scn e vid =
     (case scenes of
        JObj ms \<Rightarrow>
          (if obj_get ms scn = None \<and> scn \<in> set object_prototype_names
           then Inl TypeError
           else (case init_and_push (obj_get ms scn) e vid of
                   Inl err \<Rightarrow> Inl err
                 | Inr r \<Rightarrow> Inr (JObj (obj_set scn r ms))))
      | JArr xs \<Rightarrow>
          (case array_index scn of
             Some i \<Rightarrow>
               (if i < length xs
                then (case init_and_push (Some (xs ! i)) e vid of
                        Inl err \<Rightarrow> Inl err
                      | Inr r \<Rightarrow> Inr (JArr (xs[i := r])))
                else (case init_and_push None e vid of
                        Inl err \<Rightarrow> Inl err
                      | Inr r \<Rightarrow> Inr (JArr (xs @ replicate (i - length xs) JNull @ [r]))))
           | None \<Rightarrow>
               (if scn = ascii ''length''
                then (if xs = [] then Inl RangeError else Inl TypeError)
                else if scn \<in> set array_prototype_names \<union> set object_prototype_names
                then Inl TypeError
                else Inr (JArr xs)))
      | _ \<Rightarrow> Inl TypeError)"

text \<open>
  \<open>updatePromptIndex\<close>. Without an index file the index is \<open>{ scenes: {} }\<close>.
  \<open>index.scenes\<close> is \<open>undefined\<close>, and reading \<open>index.scenes[scene]\<close> throws
  \<open>TypeError\<close>, unless the parsed value is an object that owns \<open>scenes\<close>.
\<close>

definition updatePromptIndex ::
  "jsstring \<Rightarrow> jsstring \<Rightarrow> nat \<Rightarrow> jsstring \<Rightarrow> store \<Rightarrow> js_error + store" where
  "updatePromptIndex now scn version nt st =
     (case (case index_json st of
              No_index \<Rightarrow> Inr (JObj [(ascii ''scenes'', JObj [])])
            | Bad_index \<Rightarrow> Inl SyntaxError
            | Index j \<Rightarrow> Inr j) of
        Inl e \<Rightarrow> Inl e
      | Inr index \<Rightarrow>
          (case index of
             JObj ms \<Rightarrow>
               (case obj_get ms (ascii ''scenes'') of
                  None \<Rightarrow> Inl TypeError
                | Some scenes \<Rightarrow>
                    (case update_scenes scenes scn (version_entry version now nt)
                            (ascii ''v'' @ decimal version) of
                       Inl e \<Rightarrow> Inl e
                     | Inr scenes' \<Rightarrow>
                         Inr (st\<lparr>index_json :=
                                Index (JObj (obj_set (ascii ''scenes'') scenes' ms))\<rparr>)))
           | _ \<Rightarrow> Inl TypeError))"

text \<open>\<open>savePromptVersion\<close> returns the version number and the path of the new file.\<close>

definition savePromptVersion ::
  "jsstring \<Rightarrow> jsstring \<Rightarrow> jsstring \<Rightarrow> jsstring \<Rightarrow> store \<Rightarrow> js_error + ((nat \<times> path) \<times> store)" where
  "savePromptVersion now scn content nt st =
     (let st1 = ensure_dir scn st;
          nextVersion = length (listPromptVersions st1 scn) + 1;
          filepath = (scn, ascii ''v'' @ decimal nextVersion @ ascii ''.md'')
      in (case writeFileSync filepath content st1 of
            Inl e \<Rightarrow> Inl e
          | Inr st2 \<Rightarrow>
              (case updatePromptIndex now scn nextVersion nt st2 of
                 Inl e \<Rightarrow> Inl e
               | Inr st3 \<Rightarrow> Inr ((nextVersion, filepath), st3))))"

text \<open>
  \<open>getPromptByScene\<close> returns the path of the prompt file: of the version asked for
  (\<open>explicit_version\<close>), or of \<open>default.md\<close> or the last version file in sorted order
  (\<open>default_or_latest\<close>). A version argument that is \<open>null\<close> or the empty string is
  falsy. The default sort of an array of strings compares code units, which is the
  lexicographic order of the lists.
\<close>

definition default_or_latest :: "jsstring \<Rightarrow> directory \<Rightarrow> js_error + path" where
  "default_or_latest scn d =
     (if existsSync d (ascii ''default.md'') then Inr (scn, ascii ''default.md'')
      else (case rev (sort (filter is_version_file (readdirSync d))) of
              f # _ \<Rightarrow> Inr (scn, f)
            | [] \<Rightarrow> Inl (Error ([0x573A, 0x666F, 0x0020] @ scn @
                      [0x0020, 0x6CA1, 0x6709, 0x63D0, 0x793A, 0x8BCD, 0x6587, 0x4EF6]))))"

definition explicit_version :: "jsstring \<Rightarrow> directory \<Rightarrow> jsstring \<Rightarrow> js_error + path" where
  "explicit_version scn d v =
     (if existsSync d (ascii ''v'' @ v @ ascii ''.md'')
      then Inr (scn, ascii ''v'' @ v @ ascii ''.md'')
      else Inl (Error ([0x63D0, 0x793A, 0x8BCD, 0x7248, 0x672C, 0x4E0D, 0x5B58, 0x5728,
                        0x003A, 0x0020, 0x0076] @ v)))"

definition getPromptByScene :: "store \<Rightarrow> jsstring \<Rightarrow> jsstring option \<Rightarrow> js_error + path" where
  "getPromptByScene st scn version =
     (case prompts st scn of
        None \<Rightarrow>
          Inl (Error ([0x573A, 0x666F, 0x76EE, 0x5F55, 0x4E0D, 0x5B58, 0x5728, 0x003A, 0x0020] @ scn))
      | Some d \<Rightarrow>
          (case version of
             None \<Rightarrow> default_or_latest scn d
           | Some v \<Rightarrow> (if v = [] then default_or_latest scn d else explicit_version scn d v)))"

text \<open>Calling \<open>savePromptVersion\<close> once for every element of a list of arguments (time
  stamp, content, note), in sequence; the version numbers returned, in order.\<close>

fun save_all ::
  "(jsstring \<times> jsstring \<times> jsstring) list \<Rightarrow> jsstring \<Rightarrow> store \<Rightarrow> js_error + (nat list \<times> store)" where
  "save_all [] scn st = Inr ([], st)"
| "save_all ((now, content, nt) # rest) scn st =
     (case savePromptVersion now scn content nt st of
        Inl e \<Rightarrow> Inl e
      | Inr ((v, p), st') \<Rightarrow>
          (case save_all rest scn st' of
             Inl e \<Rightarrow> Inl e
           | Inr (vs, st'') \<Rightarrow> Inr (v # vs, st'')))"

text \<open>The scene's directory is missing or holds no version file.\<close>

definition no_version_files :: "store \<Rightarrow> jsstring \<Rightarrow> bool" where
  "no_version_files st scn =
     (case prompts st scn of
        None \<Rightarrow> True
      | Some d \<Rightarrow> filter is_version_file (readdirSync d) = [])"

text \<open>
  The value that the index holds for a scene (an own member of the object \<open>scenes\<close>),
  the versions array of such a value, and whether it has one.
\<close>

definition scene_record :: "jsstring \<Rightarrow> index_file \<Rightarrow> json option" where
  "scene_record scn ix =
     (case ix of
        Index (JObj ms) \<Rightarrow>
          (case obj_get ms (ascii ''scenes'') of
             Some (JObj scenes) \<Rightarrow> obj_get scenes scn
           | _ \<Rightarrow> None)
      | _ \<Rightarrow> None)"

definition record_versions :: "json \<Rightarrow> json list" where
  "record_versions r =
     (case r of
        JObj ms \<Rightarrow>
          (case obj_get ms (ascii ''versions'') of Some (JArr ws) \<Rightarrow> ws | _ \<Rightarrow> [])
      | _ \<Rightarrow> [])"

definition has_versions :: "json \<Rightarrow> bool" where
  "has_versions r =
     (case r of
        JObj ms \<Rightarrow>
          (case obj_get ms (ascii ''versions'') of Some (JArr ws) \<Rightarrow> True | _ \<Rightarrow> False)
      | _ \<Rightarrow> False)"

text \<open>The versions list and the current version that the index holds for a scene.\<close>

definition index_versions :: "jsstring \<Rightarrow> store \<Rightarrow> json list" where
  "index_versions scn st =
     (case scene_record scn (index_json st) of Some r \<Rightarrow> record_versions r | None \<Rightarrow> [])"

definition index_current :: "jsstring \<Rightarrow> store \<Rightarrow> json option" where
  "index_current scn st =
     (case scene_record scn (index_json st) of
        Some (JObj ms) \<Rightarrow> obj_get ms (ascii ''current_version'')
      | _ \<Rightarrow> None)"

text \<open>
  The index can take a version of the scene. The index file is absent and the scene is
  not named like a property of \<open>Object.prototype\<close>; or it holds an object whose
  \<open>scenes\<close> is an object in which the scene is not a member and not named like a
  property of \<open>Object.prototype\<close>, or is a member with a falsy value, or is a member
  with a versions array.
\<close>

definition index_usable :: "jsstring \<Rightarrow> index_file \<Rightarrow> bool" where
  "index_usable scn ix =
     (case ix of
        No_index \<Rightarrow> scn \<notin> set object_prototype_names
      | Bad_index \<Rightarrow> False
      | Index j \<Rightarrow>
          (case j of
             JObj ms \<Rightarrow>
               (case obj_get ms (ascii ''scenes'') of
                  Some (JObj scenes) \<Rightarrow>
                    (case obj_get scenes scn of
                       None \<Rightarrow> scn \<notin> set object_prototype_names
                     | Some r \<Rightarrow> \<not> truthy r \<or> has_versions r)
                | _ \<Rightarrow> False)
           | _ \<Rightarrow> False))"

text \<open>
  The index entries that a sequence of saves appends, numbered from \<open>k + 1\<close>, and the
  id of an entry.
\<close>

fun saved_entries :: "nat \<Rightarrow> (jsstring \<times> jsstring \<times> jsstring) list \<Rightarrow> json list" where
  "saved_entries k [] = []"
| "saved_entries k ((now, content, nt) # rest) =
     version_entry (Suc k) now nt # saved_entries (Suc k) rest"


text \<open>The file name of version \<open>n\<close>, and the version files of a scene's directory.\<close>

definition vname :: "nat \<Rightarrow> jsstring" where
  "vname n = ascii ''v'' @ decimal n @ ascii ''.md''"

definition dir_of :: "store \<Rightarrow> jsstring \<Rightarrow> directory" where
  "dir_of st scn = (case prompts st scn of None \<Rightarrow> [] | Some d \<Rightarrow> d)"

definition version_files :: "store \<Rightarrow> jsstring \<Rightarrow> jsstring list" where
  "version_files st scn = filter is_version_file (readdirSync (dir_of st scn))"



text \<open>
  Stores for \<open>product/weekly\<close>: nothing on disk; an empty directory next to an
  index that still records a version \<open>v1\<close>; nothing on disk but an index file that holds
  \<open>{}\<close>; and the arguments of ten saves.
\<close>

definition empty_store :: store where
  "empty_store = \<lparr>prompts = Map.empty, index_json = No_index\<rparr>"



definition ten_saves :: "(jsstring \<times> jsstring \<times> jsstring) list" where
  "ten_saves =
     [(ascii ''2026-01-01T00:00:00.000Z'', ascii ''prompt 1'', []),
      (ascii ''2026-01-02T00:00:00.000Z'', ascii ''prompt 2'', []),
      (ascii ''2026-01-03T00:00:00.000Z'', ascii ''prompt 3'', []),
      (ascii ''2026-01-04T00:00:00.000Z'', ascii ''prompt 4'', []),
      (ascii ''2026-01-05T00:00:00.000Z'', ascii ''prompt 5'', []),
      (ascii ''2026-01-06T00:00:00.000Z'', ascii ''prompt 6'', []),
      (ascii ''2026-01-07T00:00:00.000Z'', ascii ''prompt 7'', []),
      (ascii ''2026-01-08T00:00:00.000Z'', ascii ''prompt 8'', []),
      (ascii ''2026-01-09T00:00:00.000Z'', ascii ''prompt 9'', []),
      (ascii ''2026-01-10T00:00:00.000Z'', ascii ''prompt 10'', [])]"

section \<open>LLM client\<close>

text \<open>
  The model registry is the same in \<open>src/lib/llmClient.ts\<close> and in the engine's
  \<open>llmClient\<close>. \<open>MODELS[modelKey]\<close> is modelled as the lookup of an own property.
\<close>

record ModelConfig =
  name :: jsstring
  provider :: jsstring
  apiKeyEnv :: jsstring
  endpoint :: jsstring
  modelName :: jsstring

definition MODELS :: "ModelConfig js_object" where
  "MODELS =
     [(ascii ''qwen-max'',
        \<lparr>name = ascii ''QWEN MAX'', provider = ascii ''aliyun'',
         apiKeyEnv = ascii ''DASHSCOPE_API_KEY'',
         endpoint = ascii ''https://dashscope.aliyuncs.com/compatible-mode/v1/chat/completions'',
         modelName = ascii ''qwen-max''\<rparr>),
      (ascii ''deepseek-v3'',
        \<lparr>name = ascii ''DeepSeek V3'', provider = ascii ''deepseek'',
         apiKeyEnv = ascii ''DEEPSEEK_API_KEY'',
         endpoint = ascii ''https://api.deepseek.com/v1/chat/completions'',
         modelName = ascii ''deepseek-chat''\<rparr>),
      (ascii ''doubao'',
        \<lparr>name = [0x8C46, 0x5305, 0x0020, 0x0031, 0x002E, 0x0038], provider = ascii ''douyin'',
         apiKeyEnv = ascii ''DOUBAO_API_KEY'',
         endpoint = ascii ''https://ark.cn-beijing.volces.com/api/v3/chat/completions'',
         modelName = ascii ''doubao-pro-32k''\<rparr>)]"

text \<open>\<open>xs.join(sep)\<close>.\<close>

fun js_join :: "jsstring \<Rightarrow> jsstring list \<Rightarrow> jsstring" where
  "js_join sep [] = []"
| "js_join sep [x] = x"
| "js_join sep (x # y # ys) = x @ sep @ js_join sep (y # ys)"

text \<open>\<open>getModelConfig\<close> of \<open>src/lib/llmClient.ts\<close> and of the engine; they differ in the
  language of the message.\<close>

definition getModelConfig :: "jsstring \<Rightarrow> js_error + ModelConfig" where
  "getModelConfig modelKey =
     (case obj_get MODELS modelKey of
        None \<Rightarrow>
          Inl (Error ([0x4E0D, 0x652F, 0x6301, 0x7684, 0x6A21, 0x578B, 0x003A, 0x0020] @ modelKey @
                      [0x002E, 0x0020, 0x652F, 0x6301, 0x7684, 0x6A21, 0x578B, 0x003A, 0x0020] @
                      js_join (ascii '', '') (map fst MODELS)))
      | Some config \<Rightarrow> Inr config)"

definition getModelConfig_engine :: "jsstring \<Rightarrow> js_error + ModelConfig" where
  "getModelConfig_engine modelKey =
     (case obj_get MODELS modelKey of
        None \<Rightarrow>
          Inl (Error (ascii ''Unsupported model: '' @ modelKey @ ascii ''. Supported: '' @
                      js_join (ascii '', '') (map fst MODELS)))
      | Some config \<Rightarrow> Inr config)"

text \<open>
  A chat-completion request, and what \<open>fetch\<close> and the reading of the response come to.
  \<open>fetch\<close> is aborted by the timer, rejects with another error (its message), or
  resolves to a response. Of a response the client reads \<open>ok\<close>, \<open>status\<close>, the text
  of the body, and \<open>choices[0].message.content\<close> of the parsed body: \<open>Inl\<close> the message
  of the error thrown on the way, \<open>Inr None\<close> when there is no first choice. The
  environment maps the names of the variables that are set to their values. Every
  function returns its result together with the requests it has sent.
\<close>

record http_request =
  url :: jsstring
  authorization :: jsstring
  request_model :: jsstring
  messages :: "(jsstring \<times> jsstring) list"
  temperature :: rat
  max_tokens :: nat
  response_format :: "jsstring option"

record http_response =
  ok :: bool
  http_status :: nat
  body_text :: jsstring
  body_content :: "jsstring + jsstring option"

datatype fetch_outcome = Aborted | Rejected jsstring | Response http_response

text \<open>\<open>generateSummary\<close> of \<open>src/lib/llmClient.ts\<close>, called with a model key (the
  default of the parameter, \<open>qwen-max\<close>, is the caller's to pass): every error raised
  inside the \<open>try\<close> block is wrapped again by the \<open>catch\<close> block.\<close>

definition call_failed :: "jsstring \<Rightarrow> js_error" where
  "call_failed msg = Error ([0x8C03, 0x7528, 0x5931, 0x8D25, 0x003A, 0x0020] @ msg)"

definition generateSummary ::
  "(jsstring \<rightharpoonup> jsstring) \<Rightarrow> (http_request \<Rightarrow> fetch_outcome) \<Rightarrow>
   jsstring \<Rightarrow> jsstring \<Rightarrow> jsstring \<Rightarrow> (js_error + jsstring) \<times> http_request list" where
  "generateSummary env fetch dialogue prompt_text model_key =
     (case getModelConfig model_key of
        Inl e \<Rightarrow> (Inl e, [])
      | Inr config \<Rightarrow>
          (case env (apiKeyEnv config) of
             None \<Rightarrow>
               (Inl (Error ([0x672A, 0x8BBE, 0x7F6E, 0x0020, 0x0041, 0x0050, 0x0049, 0x0020,
                             0x004B, 0x0065, 0x0079, 0x003A, 0x0020] @ apiKeyEnv config)), [])
           | Some apiKey \<Rightarrow>
               (if apiKey = []
                then (Inl (Error ([0x672A, 0x8BBE, 0x7F6E, 0x0020, 0x0041, 0x0050, 0x0049, 0x0020,
                                   0x004B, 0x0065, 0x0079, 0x003A, 0x0020] @ apiKeyEnv config)), [])
                else
                  (let req = \<lparr>url = endpoint config,
                              authorization = ascii ''Bearer '' @ apiKey,
                              request_model = modelName config,
                              messages = [(ascii ''system'', prompt_text), (ascii ''user'', dialogue)],
                              temperature = 7 / 10, max_tokens = 8192,
                              response_format = None\<rparr>
                   in (case fetch req of
                         Aborted \<Rightarrow> (Inl (Error [0x8BF7, 0x6C42, 0x8D85, 0x65F6]), [req])
                       | Rejected msg \<Rightarrow> (Inl (call_failed msg), [req])
                       | Response r \<Rightarrow>
                           (if \<not> ok r
                            then (Inl (call_failed
                                   ([0x0041, 0x0050, 0x0049, 0x0020, 0x9519, 0x8BEF, 0x003A, 0x0020] @
                                    decimal (http_status r) @ ascii '' - '' @ body_text r)), [req])
                            else (case body_content r of
                                    Inl msg \<Rightarrow> (Inl (call_failed msg), [req])
                                  | Inr None \<Rightarrow>
                                      (Inl (call_failed
                                         [0x004C, 0x004C, 0x004D, 0x0020, 0x8FD4, 0x56DE, 0x683C,
                                          0x5F0F, 0x9519, 0x8BEF]), [req])
                                  | Inr (Some c) \<Rightarrow> (Inr c, [req]))))))))"

text \<open>The engine: \<open>callLLM\<close> rethrows every error but the abort, and \<open>generate\<close>
  calls it with the model of its input, \<open>qwen-max\<close> by default.\<close>

record llm_options =
  opt_temperature :: "rat option"
  maxTokens :: "nat option"
  responseFormat :: "jsstring option"

definition callLLM ::
  "(jsstring \<rightharpoonup> jsstring) \<Rightarrow> (http_request \<Rightarrow> fetch_outcome) \<Rightarrow>
   (jsstring \<times> jsstring) list \<Rightarrow> jsstring \<Rightarrow> llm_options \<Rightarrow>
   (js_error + jsstring) \<times> http_request list" where
  "callLLM env fetch msgs model_key options =
     (case getModelConfig_engine model_key of
        Inl e \<Rightarrow> (Inl e, [])
      | Inr config \<Rightarrow>
          (case env (apiKeyEnv config) of
             None \<Rightarrow> (Inl (Error (ascii ''API Key not set: '' @ apiKeyEnv config)), [])
           | Some apiKey \<Rightarrow>
               (if apiKey = []
                then (Inl (Error (ascii ''API Key not set: '' @ apiKeyEnv config)), [])
                else
                  (let req = \<lparr>url = endpoint config,
                              authorization = ascii ''Bearer '' @ apiKey,
                              request_model = modelName config,
                              messages = msgs,
                              temperature = (case opt_temperature options of
                                               None \<Rightarrow> 7 / 10 | Some t \<Rightarrow> t),
                              max_tokens = (case maxTokens options of
                                              None \<Rightarrow> 8192 | Some n \<Rightarrow> n),
                              response_format = responseFormat options\<rparr>
                   in (case fetch req of
                         Aborted \<Rightarrow> (Inl (Error (ascii ''Request timeout'')), [req])
                       | Rejected msg \<Rightarrow> (Inl (Error msg), [req])
                       | Response r \<Rightarrow>
                           (if \<not> ok r
                            then (Inl (Error (ascii ''API Error: '' @ decimal (http_status r) @
                                    ascii '' - '' @ body_text r)), [req])
                            else (case body_content r of
                                    Inl msg \<Rightarrow> (Inl (Error msg), [req])
                                  | Inr None \<Rightarrow>
                                      (Inl (Error (ascii ''Invalid LLM response format'')), [req])
                                  | Inr (Some c) \<Rightarrow> (Inr c, [req]))))))))"

record GenerateInput =
  data :: jsstring
  prompt :: jsstring
  model :: "jsstring option"

record GenerateOutput =
  out_content :: jsstring
  out_model :: jsstring

definition generate ::
  "(jsstring \<rightharpoonup> jsstring) \<Rightarrow> (http_request \<Rightarrow> fetch_outcome) \<Rightarrow> GenerateInput \<Rightarrow>
   (js_error + GenerateOutput) \<times> http_request list" where
  "generate env fetch input =
     (let model_key = (case model input of None \<Rightarrow> ascii ''qwen-max'' | Some m \<Rightarrow> m)
      in (case callLLM env fetch
                 [(ascii ''system'', prompt input), (ascii ''user'', data input)] model_key
                 \<lparr>opt_temperature = Some (7 / 10), maxTokens = Some 8192,
                  responseFormat = None\<rparr> of
            (Inl e, reqs) \<Rightarrow> (Inl e, reqs)
          | (Inr c, reqs) \<Rightarrow> (Inr \<lparr>out_content = c, out_model = model_key\<rparr>, reqs)))"

section \<open>Command log\<close>

text \<open>
  \<open>Logger.getStats\<close> reads the directory \<open>commands\<close> of the log directory: \<open>None\<close>
  when it does not exist. \<open>JSON.parse\<close> is a parameter: it gives, for a line, the
  fields that \<open>getStats\<close> reads from the parsed entry, or \<open>None\<close> when parsing or the
  reading of a field throws, which the \<open>try\<close> block swallows. Durations are integers
  (milliseconds).
\<close>

record LogStats =
  totalCommands :: nat
  successCount :: nat
  errorCount :: nat
  avgDuration :: int

record parsed_entry =
  command :: "jsstring option"
  status :: "jsstring option"
  duration :: "int option"

text \<open>\<open>xs.slice(start)\<close> for an integer \<open>start\<close>: a negative \<open>start\<close> counts from the end.\<close>

definition js_slice :: "int \<Rightarrow> 'a list \<Rightarrow> 'a list" where
  "js_slice start xs =
     (if start < 0 then drop (nat (max (int (length xs) + start) 0)) xs
      else drop (nat (min start (int (length xs)))) xs)"

text \<open>\<open>content.split('\n')\<close>, on the code unit 10.\<close>

fun split_lines :: "jsstring \<Rightarrow> jsstring list" where
  "split_lines [] = [[]]"
| "split_lines (c # cs) =
     (if c = 10 then [] # split_lines cs
      else (case split_lines cs of
              l # ls \<Rightarrow> (c # l) # ls
            | [] \<Rightarrow> [[c]]))"

text \<open>The body of the inner \<open>forEach\<close>: one line; the state is the three counters and
  \<open>totalDuration\<close>. A filter that is \<open>undefined\<close> or empty is falsy.\<close>

definition count_line ::
  "(jsstring \<Rightarrow> parsed_entry option) \<Rightarrow> jsstring option \<Rightarrow> jsstring \<Rightarrow>
   nat \<times> nat \<times> nat \<times> int \<Rightarrow> nat \<times> nat \<times> nat \<times> int" where
  "count_line parse cmd line acc =
     (case acc of (totalCount, success, errors, totalDuration) \<Rightarrow>
        (case parse line of
           None \<Rightarrow> acc
         | Some entry \<Rightarrow>
             (if cmd \<noteq> None \<and> cmd \<noteq> Some [] \<and> command entry \<noteq> cmd then acc
              else (totalCount + 1,
                    (if status entry = Some (ascii ''success'') then success + 1 else success),
                    (if status entry = Some (ascii ''error'') then errors + 1 else errors),
                    (case duration entry of
                       None \<Rightarrow> totalDuration
                     | Some d \<Rightarrow> (if d = 0 then totalDuration else totalDuration + d))))))"

definition count_file ::
  "(jsstring \<Rightarrow> parsed_entry option) \<Rightarrow> jsstring option \<Rightarrow> directory \<Rightarrow> jsstring \<Rightarrow>
   nat \<times> nat \<times> nat \<times> int \<Rightarrow> nat \<times> nat \<times> nat \<times> int" where
  "count_file parse cmd dir file acc =
     (case obj_get dir file of
        None \<Rightarrow> acc
      | Some body \<Rightarrow>
          fold (count_line parse cmd) (filter (\<lambda>l. l \<noteq> []) (split_lines body)) acc)"

text \<open>\<open>Math.round\<close> rounds to the nearest integer, a half upwards.\<close>

definition math_round :: "rat \<Rightarrow> int" where
  "math_round x = \<lfloor>x + 1 / 2\<rfloor>"

definition getStats ::
  "(jsstring \<Rightarrow> parsed_entry option) \<Rightarrow> directory option \<Rightarrow> jsstring option \<Rightarrow> int \<Rightarrow> LogStats" where
  "getStats parse logsDir cmd days =
     (case logsDir of
        None \<Rightarrow> \<lparr>totalCommands = 0, successCount = 0, errorCount = 0, avgDuration = 0\<rparr>
      | Some dir \<Rightarrow>
          (let files = js_slice (- days)
                 (filter (\<lambda>f. endsWith f (ascii ''.jsonl'')) (readdirSync dir))
           in (case fold (count_file parse cmd dir) files (0, 0, 0, 0) of
                 (totalCount, success, errors, totalDuration) \<Rightarrow>
                   \<lparr>totalCommands = totalCount, successCount = success, errorCount = errors,
                    avgDuration = (if totalCount > 0
                                   then math_round (of_int totalDuration / of_nat totalCount)
                                   else 0)\<rparr>)))"

section \<open>Properties of the scene detectors\<close>

subsection \<open>Strings\<close>

lemma js_includes_iff: "js_includes c k \<longleftrightarrow> (\<exists>p s. c = p @ k @ s)"
proof (induction c)
  case Nil
  then show ?case by auto
next
  case (Cons x xs)
  show ?case
  proof
    assume "js_includes (x # xs) k"
    then consider "prefix k (x # xs)" | "js_includes xs k" by auto
    then show "\<exists>p s. x # xs = p @ k @ s"
    proof cases
      case 1
      then obtain s where "x # xs = k @ s" by (auto simp: prefix_def)
      then have "x # xs = [] @ k @ s" by simp
      then show ?thesis by blast
    next
      case 2
      then obtain p s where "xs = p @ k @ s" using Cons.IH by blast
      then have "x # xs = (x # p) @ k @ s" by simp
      then show ?thesis by blast
    qed
  next
    assume "\<exists>p s. x # xs = p @ k @ s"
    then obtain p s where ps: "x # xs = p @ k @ s" by blast
    show "js_includes (x # xs) k"
    proof (cases p)
      case Nil
      then have "prefix k (x # xs)" using ps by (simp add: prefix_def)
      then show ?thesis by simp
    next
      case (Cons y p')
      then have "xs = p' @ k @ s" using ps by simp
      then have "js_includes xs k" using Cons.IH by blast
      then show ?thesis by simp
    qed
  qed
qed

subsection \<open>The loops of the source compute the closed form\<close>

lemma match_keywords_eq:
  "match_keywords c kws (n, f) = (n + length (hits c kws), f @ hits c kws)"
  by (induction kws arbitrary: n f) (simp_all add: hits_def)

lemma obj_set_fresh: "k \<notin> fst ` set obj \<Longrightarrow> obj_set k v obj = obj @ [(k, v)]"
  by (induction obj) auto

lemma score_scenes_append:
  "distinct (map fst tbl) \<Longrightarrow> fst ` set tbl \<inter> fst ` set sc = {} \<Longrightarrow>
   fst ` set tbl \<inter> fst ` set fk = {} \<Longrightarrow>
   score_scenes c tbl (sc, fk) =
     (sc @ map score_entry (map (found_entry c) tbl), fk @ map (found_entry c) tbl)"
proof (induction tbl arbitrary: sc fk)
  case Nil
  then show ?case by simp
next
  case (Cons e tbl)
  obtain s k where e: "e = (s, k)" by (cases e)
  have fresh: "s \<notin> fst ` set sc" "s \<notin> fst ` set fk"
    using Cons.prems e by auto
  have "score_scenes c (e # tbl) (sc, fk) =
        score_scenes c tbl (sc @ [(s, length (hits c k))], fk @ [(s, hits c k)])"
    using fresh by (simp add: e match_keywords_eq obj_set_fresh)
  also have "\<dots> = ((sc @ [(s, length (hits c k))]) @ map score_entry (map (found_entry c) tbl),
                   (fk @ [(s, hits c k)]) @ map (found_entry c) tbl)"
    using Cons.prems e by (intro Cons.IH) (auto simp: image_iff)
  finally show ?case by (simp add: e score_entry_def found_entry_def)
qed

lemma score_scenes_eq:
  "distinct (map fst tbl) \<Longrightarrow>
   score_scenes c tbl ([], []) =
     (map score_entry (map (found_entry c) tbl), map (found_entry c) tbl)"
  using score_scenes_append [of tbl "[]" "[]" c] by simp

lemma best_scene_gt_found:
  "distinct (map fst fk) \<Longrightarrow> set es \<subseteq> set fk \<Longrightarrow>
   best_scene_gt (map score_entry es) fk st = best_gt_found es st"
proof (induction es arbitrary: st)
  case Nil
  then show ?case by simp
next
  case (Cons e es)
  obtain s f where e: "e = (s, f)" by (cases e)
  obtain m b bk where st: "st = (m, b, bk)" by (cases st)
  have "obj_get fk s = Some f"
    unfolding obj_get_def using Cons.prems e by (intro map_of_is_SomeI) auto
  then show ?case using Cons by (simp add: e st score_entry_def)
qed

lemma best_scene_ge_found:
  "distinct (map fst fk) \<Longrightarrow> set es \<subseteq> set fk \<Longrightarrow>
   best_scene_ge (map score_entry es) fk st = best_ge_found es st"
proof (induction es arbitrary: st)
  case Nil
  then show ?case by simp
next
  case (Cons e es)
  obtain s f where e: "e = (s, f)" by (cases e)
  obtain m b bk where st: "st = (m, b, bk)" by (cases st)
  have "obj_get fk s = Some f"
    unfolding obj_get_def using Cons.prems e by (intro map_of_is_SomeI) auto
  then show ?case using Cons by (simp add: e st score_entry_def)
qed

lemma fst_found_entry: "map fst (map (found_entry c) tbl) = map fst tbl"
  by (simp add: found_entry_def comp_def)

lemma ascii_eq_iff: "(ascii s = ascii t) = (s = t)"
  unfolding ascii_def by (simp add: inj_map_eq_map inj_on_def)

lemma distinct_SCENE_KEYWORDS: "distinct (map fst SCENE_KEYWORDS)"
  by (simp add: SCENE_KEYWORDS_def ascii_eq_iff)

lemma distinct_SCENE_KEYWORDS_engine: "distinct (map fst SCENE_KEYWORDS_engine)"
  by (simp add: SCENE_KEYWORDS_engine_def ascii_eq_iff)

lemma detectScene_found:
  "detectScene c =
     finish_detection (map score_entry (map (found_entry c) SCENE_KEYWORDS))
       (best_gt_found (map (found_entry c) SCENE_KEYWORDS) (0, ascii ''other/finance'', Some []))"
  unfolding detectScene_def
  by (simp only: score_scenes_eq [OF distinct_SCENE_KEYWORDS] prod.case
        best_scene_gt_found [OF _ subset_refl] fst_found_entry distinct_SCENE_KEYWORDS)

lemma detect_found:
  "detect c =
     finish_detection (map score_entry (map (found_entry c) SCENE_KEYWORDS_engine))
       (best_ge_found (map (found_entry c) SCENE_KEYWORDS_engine)
          (0, ascii ''other/finance'', Some []))"
  unfolding detect_def
  by (simp only: score_scenes_eq [OF distinct_SCENE_KEYWORDS_engine] prod.case
        best_scene_ge_found [OF _ subset_refl] fst_found_entry distinct_SCENE_KEYWORDS_engine)

lemma finish_detection_Some:
  "finish_detection scores (m, b, Some ks) =
     Inr \<lparr>scene = b, confidence = (if m > 0 then min (of_nat m / 3) 1 else 3 / 10),
          keywords = take 5 ks, allScores = scores\<rparr>"
proof (cases "m > 0")
  case True
  then have "(1::rat) \<le> of_nat m" by simp
  then have "\<not> min (of_nat m / 3) 1 < (3 / 10 :: rat)" by (simp add: min_def)
  then show ?thesis using True by (simp add: finish_detection_def)
next
  case False
  then show ?thesis by (simp add: finish_detection_def)
qed

subsection \<open>The search for the best scene\<close>

lemma fold_max_ge: "m \<le> fold max xs (m::nat)"
proof (induction xs arbitrary: m)
  case Nil
  then show ?case by simp
next
  case (Cons x xs)
  have "m \<le> max x m" by simp
  also have "\<dots> \<le> fold max xs (max x m)" by (rule Cons.IH)
  finally show ?case by simp
qed


lemma fold_max_unchanged:
  "\<forall>x \<in> set xs. x \<le> m \<Longrightarrow> fold max xs (m::nat) = m"
  by (induction xs) (auto simp: max_def)

lemma best_gt_found_fst:
  "fst (best_gt_found F (m, b, bk)) = fold max (map (\<lambda>e. length (snd e)) F) m"
  by (induction F arbitrary: m b bk) (auto simp: max_def)

lemma best_ge_found_fst:
  "fst (best_ge_found F (m, b, bk)) = fold max (map (\<lambda>e. length (snd e)) F) m"
  by (induction F arbitrary: m b bk) (auto simp: max_def)

lemma best_gt_found_init:
  "fold max (map (\<lambda>e. length (snd e)) F) m = m \<Longrightarrow> best_gt_found F (m, b, bk) = (m, b, bk)"
proof (induction F arbitrary: m b bk)
  case Nil
  then show ?case by simp
next
  case (Cons e F)
  obtain s f where e: "e = (s, f)" by (cases e)
  have "max (length f) m \<le> fold max (map (\<lambda>e. length (snd e)) F) (max (length f) m)"
    by (rule fold_max_ge)
  with Cons.prems have le: "length f \<le> m" by (simp add: e)
  then have "max (length f) m = m" by simp
  with Cons.prems have "fold max (map (\<lambda>e. length (snd e)) F) m = m" by (simp add: e)
  then have "best_gt_found F (m, b, bk) = (m, b, bk)" by (rule Cons.IH)
  with le show ?case by (simp add: e)
qed

lemma best_gt_found_first:
  "m < fold max (map (\<lambda>e. length (snd e)) F) m \<Longrightarrow>
   \<exists>e. find (\<lambda>e. length (snd e) = fold max (map (\<lambda>e. length (snd e)) F) m) F = Some e \<and>
       best_gt_found F (m, b, bk) = (length (snd e), fst e, Some (snd e))"
proof (induction F arbitrary: m b bk)
  case Nil
  then show ?case by simp
next
  case (Cons e F)
  obtain s f where e: "e = (s, f)" by (cases e)
  let ?M = "\<lambda>m. fold max (map (\<lambda>e. length (snd e)) F) m"
  show ?case
  proof (cases "length f > m")
    case True
    then have mx: "max (length f) m = length f" by simp
    have ge: "length f \<le> ?M (length f)" by (rule fold_max_ge)
    show ?thesis
    proof (cases "?M (length f) = length f")
      case True
      then have "best_gt_found F (length f, s, Some f) = (length f, s, Some f)"
        by (rule best_gt_found_init)
      with True \<open>length f > m\<close> show ?thesis by (simp add: e mx)
    next
      case False
      with ge have lt: "length f < ?M (length f)" by simp
      from Cons.IH [OF lt, of s "Some f"] False \<open>length f > m\<close>
      show ?thesis by (simp add: e mx)
    qed
  next
    case False
    then have mx: "max (length f) m = m" by simp
    from Cons.prems have lt: "m < ?M m" by (simp add: e mx)
    with False have ne: "length f \<noteq> ?M m" by simp
    from Cons.IH [OF lt, of b bk] False ne
    show ?thesis by (simp add: e mx)
  qed
qed

lemma best_gt_found_cases:
  "best_gt_found F st = st \<or>
   (\<exists>e \<in> set F. best_gt_found F st = (length (snd e), fst e, Some (snd e)))"
proof (induction F arbitrary: st)
  case Nil
  then show ?case by simp
next
  case (Cons e F)
  obtain s f where e: "e = (s, f)" by (cases e)
  obtain m b bk where st: "st = (m, b, bk)" by (cases st)
  show ?case
    using Cons.IH [of "(length f, s, Some f)"] Cons.IH [of "(m, b, bk)"]
    by (auto simp: e st)
qed

lemma best_ge_found_cases:
  "best_ge_found F st = st \<or>
   (\<exists>e \<in> set F. best_ge_found F st = (length (snd e), fst e, Some (snd e)))"
proof (induction F arbitrary: st)
  case Nil
  then show ?case by simp
next
  case (Cons e F)
  obtain s f where e: "e = (s, f)" by (cases e)
  obtain m b bk where st: "st = (m, b, bk)" by (cases st)
  show ?case
    using Cons.IH [of "(length f, s, Some f)"] Cons.IH [of "(m, b, bk)"]
    by (auto simp: e st)
qed

lemma find_append:
  "find P (xs @ ys) = (case find P xs of None \<Rightarrow> find P ys | Some x \<Rightarrow> Some x)"
  by (induction xs) auto

lemma best_ge_found_unchanged:
  "\<forall>e \<in> set F. length (snd e) < m \<Longrightarrow> best_ge_found F (m, b, bk) = (m, b, bk)"
  by (induction F) auto

lemma best_ge_found_last:
  "\<exists>e \<in> set F. m \<le> length (snd e) \<Longrightarrow>
   \<exists>e. find (\<lambda>e. length (snd e) = fold max (map (\<lambda>e. length (snd e)) F) m) (rev F) = Some e \<and>
       best_ge_found F (m, b, bk) = (length (snd e), fst e, Some (snd e))"
proof (induction F arbitrary: m b bk)
  case Nil
  then show ?case by simp
next
  case (Cons e F)
  obtain s f where e: "e = (s, f)" by (cases e)
  let ?M = "\<lambda>m. fold max (map (\<lambda>e. length (snd e)) F) m"
  show ?case
  proof (cases "m \<le> length f")
    case True
    then have mx: "max (length f) m = length f" by simp
    show ?thesis
    proof (cases "\<exists>e' \<in> set F. length f \<le> length (snd e')")
      case True
      from Cons.IH [OF True, of s "Some f"]
      obtain e' where "find (\<lambda>e. length (snd e) = ?M (length f)) (rev F) = Some e'"
        and "best_ge_found F (length f, s, Some f) = (length (snd e'), fst e', Some (snd e'))"
        by blast
      with \<open>m \<le> length f\<close> show ?thesis by (simp add: e mx find_append)
    next
      case False
      then have lt: "\<forall>e' \<in> set F. length (snd e') < length f" by auto
      then have un: "best_ge_found F (length f, s, Some f) = (length f, s, Some f)"
        by (rule best_ge_found_unchanged)
      have "\<forall>x \<in> set (map (\<lambda>e. length (snd e)) F). x \<le> length f"
        using lt by (auto intro: less_imp_le)
      then have M: "?M (length f) = length f" by (rule fold_max_unchanged)
      have "find (\<lambda>e. length (snd e) = length f) (rev F) = None"
        using lt by (auto simp: find_None_iff)
      with \<open>m \<le> length f\<close> show ?thesis by (simp add: e mx find_append M un)
    qed
  next
    case False
    then have mx: "max (length f) m = m" by simp
    from Cons.prems False have ex: "\<exists>e' \<in> set F. m \<le> length (snd e')" by (auto simp: e)
    from Cons.IH [OF ex, of b bk]
    obtain e' where "find (\<lambda>e. length (snd e) = ?M m) (rev F) = Some e'"
      and "best_ge_found F (m, b, bk) = (length (snd e'), fst e', Some (snd e'))"
      by blast
    with False show ?thesis by (simp add: e mx find_append)
  qed
qed

subsection \<open>The result of a detection\<close>

lemma finish_detection_conf:
  "finish_detection scores (m, b, Some ks) =
     Inr \<lparr>scene = b, confidence = conf_of m, keywords = take 5 ks, allScores = scores\<rparr>"
  by (simp add: finish_detection_Some conf_of_def)


lemma max_score_found:
  "max_score (map score_entry F) = fold max (map (\<lambda>e. length (snd e)) F) 0"
  by (simp add: max_score_def score_entry_def comp_def)

lemma find_map: "find P (map f xs) = map_option f (find (P \<circ> f) xs)"
  by (induction xs) auto

lemma first_max_scene_found:
  "first_max_scene (map score_entry F) =
     map_option fst (find (\<lambda>e. length (snd e) = max_score (map score_entry F)) F)"
  by (simp add: first_max_scene_def find_map comp_def option.map_comp score_entry_def)

lemma last_max_scene_found:
  "last_max_scene (map score_entry F) =
     map_option fst (find (\<lambda>e. length (snd e) = max_score (map score_entry F)) (rev F))"
  by (simp add: last_max_scene_def rev_map find_map comp_def option.map_comp score_entry_def)

text \<open>The state after the search loop: the maximal score, and either the initial
  scene with the initial keywords or an entry of the table.\<close>

lemma best_gt_found_shape:
  "\<exists>b ks. best_gt_found F (0, b0, Some []) = (max_score (map score_entry F), b, Some ks) \<and>
     (ks = [] \<or> ks \<in> snd ` set F)"
proof -
  have m: "fst (best_gt_found F (0, b0, Some [])) = max_score (map score_entry F)"
    by (simp add: best_gt_found_fst max_score_found)
  from best_gt_found_cases [of F "(0, b0, Some [])"] show ?thesis
  proof
    assume "best_gt_found F (0, b0, Some []) = (0, b0, Some [])"
    with m show ?thesis by auto
  next
    assume "\<exists>e \<in> set F. best_gt_found F (0, b0, Some []) = (length (snd e), fst e, Some (snd e))"
    then obtain e where "e \<in> set F"
      and "best_gt_found F (0, b0, Some []) = (length (snd e), fst e, Some (snd e))" by blast
    with m show ?thesis by auto
  qed
qed

lemma best_ge_found_shape:
  "\<exists>b ks. best_ge_found F (0, b0, Some []) = (max_score (map score_entry F), b, Some ks) \<and>
     (ks = [] \<or> ks \<in> snd ` set F)"
proof -
  have m: "fst (best_ge_found F (0, b0, Some [])) = max_score (map score_entry F)"
    by (simp add: best_ge_found_fst max_score_found)
  from best_ge_found_cases [of F "(0, b0, Some [])"] show ?thesis
  proof
    assume "best_ge_found F (0, b0, Some []) = (0, b0, Some [])"
    with m show ?thesis by auto
  next
    assume "\<exists>e \<in> set F. best_ge_found F (0, b0, Some []) = (length (snd e), fst e, Some (snd e))"
    then obtain e where "e \<in> set F"
      and "best_ge_found F (0, b0, Some []) = (length (snd e), fst e, Some (snd e))" by blast
    with m show ?thesis by auto
  qed
qed

lemma snd_found_entry:
  "ks = [] \<or> ks \<in> snd ` set (map (found_entry c) tbl) \<Longrightarrow>
   ks = [] \<or> (\<exists>e \<in> set tbl. ks = hits c (snd e))"
proof (erule disjE)
  assume "ks \<in> snd ` set (map (found_entry c) tbl)"
  then obtain e where "e \<in> set tbl" "ks = snd (found_entry c e)" by auto
  then have "\<exists>e \<in> set tbl. ks = hits c (snd e)" by (auto simp: found_entry_def)
  then show ?thesis by simp
qed simp

text \<open>Both detectors return a result, for every content.\<close>

lemma detectScene_result:
  "\<exists>b ks. detectScene c =
      Inr \<lparr>scene = b,
           confidence = conf_of (max_score (map score_entry (map (found_entry c) SCENE_KEYWORDS))),
           keywords = take 5 ks,
           allScores = map score_entry (map (found_entry c) SCENE_KEYWORDS)\<rparr> \<and>
     (ks = [] \<or> (\<exists>e \<in> set SCENE_KEYWORDS. ks = hits c (snd e)))"
proof -
  obtain b ks where
    "best_gt_found (map (found_entry c) SCENE_KEYWORDS) (0, ascii ''other/finance'', Some []) =
       (max_score (map score_entry (map (found_entry c) SCENE_KEYWORDS)), b, Some ks)"
    and "ks = [] \<or> ks \<in> snd ` set (map (found_entry c) SCENE_KEYWORDS)"
    using best_gt_found_shape by blast
  then have "detectScene c =
      Inr \<lparr>scene = b,
           confidence = conf_of (max_score (map score_entry (map (found_entry c) SCENE_KEYWORDS))),
           keywords = take 5 ks,
           allScores = map score_entry (map (found_entry c) SCENE_KEYWORDS)\<rparr>"
    and "ks = [] \<or> (\<exists>e \<in> set SCENE_KEYWORDS. ks = hits c (snd e))"
    by (simp_all add: detectScene_found finish_detection_conf snd_found_entry)
  then show ?thesis by blast
qed

lemma detect_result:
  "\<exists>b ks. detect c =
      Inr \<lparr>scene = b,
           confidence = conf_of (max_score (map score_entry (map (found_entry c) SCENE_KEYWORDS_engine))),
           keywords = take 5 ks,
           allScores = map score_entry (map (found_entry c) SCENE_KEYWORDS_engine)\<rparr> \<and>
     (ks = [] \<or> (\<exists>e \<in> set SCENE_KEYWORDS_engine. ks = hits c (snd e)))"
proof -
  obtain b ks where
    "best_ge_found (map (found_entry c) SCENE_KEYWORDS_engine) (0, ascii ''other/finance'', Some []) =
       (max_score (map score_entry (map (found_entry c) SCENE_KEYWORDS_engine)), b, Some ks)"
    and "ks = [] \<or> ks \<in> snd ` set (map (found_entry c) SCENE_KEYWORDS_engine)"
    using best_ge_found_shape by blast
  then have "detect c =
      Inr \<lparr>scene = b,
           confidence = conf_of (max_score (map score_entry (map (found_entry c) SCENE_KEYWORDS_engine))),
           keywords = take 5 ks,
           allScores = map score_entry (map (found_entry c) SCENE_KEYWORDS_engine)\<rparr>"
    and "ks = [] \<or> (\<exists>e \<in> set SCENE_KEYWORDS_engine. ks = hits c (snd e))"
    by (simp_all add: detect_found finish_detection_conf snd_found_entry)
  then show ?thesis by blast
qed

lemma confidence_bounds:
  "3 / 10 \<le> conf_of m \<and> conf_of m \<le> 1 \<and>
   (if m = 0 then conf_of m = 3 / 10 else 1 / 3 \<le> conf_of m)"
proof (cases "m > 0")
  case True
  then have "(1::rat) \<le> of_nat m" by simp
  then show ?thesis using True by (simp add: conf_of_def min_def)
next
  case False
  then show ?thesis by (simp add: conf_of_def)
qed

lemma fallback_not_declared:
  "\<forall>e \<in> set SCENE_KEYWORDS. fallback_keyword \<notin> set (snd e)"
  by (simp add: SCENE_KEYWORDS_def fallback_keyword_def ascii_def)

lemma fallback_not_declared_engine:
  "\<forall>e \<in> set SCENE_KEYWORDS_engine. fallback_keyword \<notin> set (snd e)"
  by (simp add: SCENE_KEYWORDS_engine_def fallback_keyword_def ascii_def)

lemma take_not_fallback:
  "ks = [] \<or> (\<exists>e \<in> set tbl. ks = hits c (snd e)) \<Longrightarrow>
   \<forall>e \<in> set tbl. fallback_keyword \<notin> set (snd e) \<Longrightarrow> take 5 ks \<noteq> [fallback_keyword]"
proof
  assume a: "ks = [] \<or> (\<exists>e \<in> set tbl. ks = hits c (snd e))"
    and n: "\<forall>e \<in> set tbl. fallback_keyword \<notin> set (snd e)"
    and t: "take 5 ks = [fallback_keyword]"
  have "fallback_keyword \<in> set (take 5 ks)" by (simp add: t)
  then have m: "fallback_keyword \<in> set ks" by (rule in_set_takeD)
  then have "ks \<noteq> []" by auto
  with a obtain e where "e \<in> set tbl" "ks = hits c (snd e)" by blast
  with m n show False by (auto simp: hits_def)
qed

lemma result_confidence:
  assumes "res = Inr \<lparr>scene = b, confidence = conf_of (max_score S), keywords = take 5 ks,
                       allScores = S\<rparr>"
    and "take 5 ks \<noteq> [fallback_keyword]"
  shows "\<exists>r. res = Inr r \<and> 3 / 10 \<le> confidence r \<and>
      (if max_score (allScores r) = 0 then confidence r = 3 / 10 else 1 / 3 \<le> confidence r) \<and>
      keywords r \<noteq> [fallback_keyword]"
proof (cases "max_score S = 0")
  case True
  with assms confidence_bounds [of "max_score S"] show ?thesis by auto
next
  case False
  with assms confidence_bounds [of "max_score S"] show ?thesis by auto
qed

lemma result_bounded:
  assumes "res = Inr \<lparr>scene = b, confidence = conf_of m, keywords = take 5 ks, allScores = S\<rparr>"
  shows "\<exists>r. res = Inr r \<and> 0 \<le> confidence r \<and> confidence r \<le> 1 \<and> length (keywords r) \<le> 5"
  using assms confidence_bounds [of m] by simp

text \<open>
  Claim C2. For every content, each detector returns a result whose confidence is at
  least 0.3: exactly 0.3 when the maximal keyword score is 0 and at least 1/3 otherwise.
  The low-confidence override is therefore never taken, and neither detector ever
  returns the synthetic keyword list that holds only the fallback keyword.
\<close>

theorem confidence_at_least_three_tenths:
  "(\<exists>r. detectScene c = Inr r \<and> 3 / 10 \<le> confidence r \<and>
      (if max_score (allScores r) = 0 then confidence r = 3 / 10 else 1 / 3 \<le> confidence r) \<and>
      keywords r \<noteq> [fallback_keyword]) \<and>
   (\<exists>r. detect c = Inr r \<and> 3 / 10 \<le> confidence r \<and>
      (if max_score (allScores r) = 0 then confidence r = 3 / 10 else 1 / 3 \<le> confidence r) \<and>
      keywords r \<noteq> [fallback_keyword])"
proof
  obtain b ks where r: "detectScene c =
      Inr \<lparr>scene = b,
           confidence = conf_of (max_score (map score_entry (map (found_entry c) SCENE_KEYWORDS))),
           keywords = take 5 ks,
           allScores = map score_entry (map (found_entry c) SCENE_KEYWORDS)\<rparr>"
    and ks: "ks = [] \<or> (\<exists>e \<in> set SCENE_KEYWORDS. ks = hits c (snd e))"
    using detectScene_result by blast
  have "take 5 ks \<noteq> [fallback_keyword]"
    using ks fallback_not_declared by (rule take_not_fallback)
  with r show "\<exists>r. detectScene c = Inr r \<and> 3 / 10 \<le> confidence r \<and>
      (if max_score (allScores r) = 0 then confidence r = 3 / 10 else 1 / 3 \<le> confidence r) \<and>
      keywords r \<noteq> [fallback_keyword]"
    by (rule result_confidence)
next
  obtain b ks where r: "detect c =
      Inr \<lparr>scene = b,
           confidence = conf_of (max_score (map score_entry (map (found_entry c) SCENE_KEYWORDS_engine))),
           keywords = take 5 ks,
           allScores = map score_entry (map (found_entry c) SCENE_KEYWORDS_engine)\<rparr>"
    and ks: "ks = [] \<or> (\<exists>e \<in> set SCENE_KEYWORDS_engine. ks = hits c (snd e))"
    using detect_result by blast
  have "take 5 ks \<noteq> [fallback_keyword]"
    using ks fallback_not_declared_engine by (rule take_not_fallback)
  with r show "\<exists>r. detect c = Inr r \<and> 3 / 10 \<le> confidence r \<and>
      (if max_score (allScores r) = 0 then confidence r = 3 / 10 else 1 / 3 \<le> confidence r) \<and>
      keywords r \<noteq> [fallback_keyword]"
    by (rule result_confidence)
qed

text \<open>
  Claim C4. For every content, each detector returns a result whose confidence lies
  between 0 and 1 and whose keyword list has at most five entries.
\<close>

theorem confidence_and_keywords_bounded:
  "(\<exists>r. detectScene c = Inr r \<and> 0 \<le> confidence r \<and> confidence r \<le> 1 \<and>
      length (keywords r) \<le> 5) \<and>
   (\<exists>r. detect c = Inr r \<and> 0 \<le> confidence r \<and> confidence r \<le> 1 \<and>
      length (keywords r) \<le> 5)"
proof
  obtain b ks where "detectScene c =
      Inr \<lparr>scene = b,
           confidence = conf_of (max_score (map score_entry (map (found_entry c) SCENE_KEYWORDS))),
           keywords = take 5 ks,
           allScores = map score_entry (map (found_entry c) SCENE_KEYWORDS)\<rparr>"
    using detectScene_result by blast
  then show "\<exists>r. detectScene c = Inr r \<and> 0 \<le> confidence r \<and> confidence r \<le> 1 \<and>
      length (keywords r) \<le> 5"
    by (rule result_bounded)
next
  obtain b ks where "detect c =
      Inr \<lparr>scene = b,
           confidence = conf_of (max_score (map score_entry (map (found_entry c) SCENE_KEYWORDS_engine))),
           keywords = take 5 ks,
           allScores = map score_entry (map (found_entry c) SCENE_KEYWORDS_engine)\<rparr>"
    using detect_result by blast
  then show "\<exists>r. detect c = Inr r \<and> 0 \<le> confidence r \<and> confidence r \<le> 1 \<and>
      length (keywords r) \<le> 5"
    by (rule result_bounded)
qed

subsection \<open>Evaluating the detectors on a concrete content\<close>

lemma ascii_Nil: "ascii [] = []"
  by (simp add: ascii_def)

lemma ascii_Nil_iff: "(ascii s = []) = (s = [])" "([] = ascii s) = (s = [])"
  by (auto simp: ascii_def)

lemma ascii_Cons_eq:
  "(ascii (c # cs) = x # xs) = (of_char c = x \<and> ascii cs = xs)"
  "(x # xs = ascii (c # cs)) = (of_char c = x \<and> ascii cs = xs)"
  by (auto simp: ascii_def)

lemma prefix_ascii_Cons:
  "prefix (ascii (c # cs)) (x # xs) = (of_char c = x \<and> prefix (ascii cs) xs)"
  by (simp add: ascii_def)

lemma prefix_ascii_Nil: "prefix (ascii (c # cs)) [] = False"
  by (simp add: ascii_def)

lemmas ascii_eval =
  ascii_Nil ascii_Nil_iff ascii_Cons_eq prefix_ascii_Cons prefix_ascii_Nil ascii_eq_iff

subsection \<open>Content without keywords\<close>

lemma no_keyword_found:
  "no_keyword_in tbl c \<Longrightarrow> map (found_entry c) tbl = map (\<lambda>e. (fst e, [])) tbl"
  by (auto simp: no_keyword_in_def found_entry_def hits_def filter_empty_conv)

lemma score_entry_empty: "map score_entry (map (\<lambda>e. (fst e, [])) tbl) = zero_scores tbl"
  by (simp add: score_entry_def zero_scores_def)

lemma best_gt_found_empty:
  "best_gt_found (map (\<lambda>e. (fst e, [])) tbl) (0, b, bk) = (0, b, bk)"
  by (induction tbl) auto

lemma best_ge_found_empty:
  "best_ge_found (map (\<lambda>e. (fst e, [])) tbl) (0, b, bk) =
     (if tbl = [] then (0, b, bk) else (0, fst (last tbl), Some []))"
  by (induction tbl arbitrary: b bk) auto

lemma last_scene_engine: "fst (last SCENE_KEYWORDS_engine) = ascii ''other/legal''"
  by (simp add: SCENE_KEYWORDS_engine_def)

lemma engine_nonempty: "SCENE_KEYWORDS_engine \<noteq> []"
  by (simp add: SCENE_KEYWORDS_engine_def)

lemma conf_of_0: "conf_of 0 = 3 / 10"
  by (simp add: conf_of_def)

lemma detectScene_no_keyword:
  "no_keyword_in SCENE_KEYWORDS c \<Longrightarrow>
   detectScene c = Inr \<lparr>scene = ascii ''other/finance'', confidence = 3 / 10, keywords = [],
     allScores = zero_scores SCENE_KEYWORDS\<rparr>"
  by (simp only: detectScene_found no_keyword_found score_entry_empty best_gt_found_empty
        finish_detection_conf conf_of_0 take.simps)

lemma detect_no_keyword:
  "no_keyword_in SCENE_KEYWORDS_engine c \<Longrightarrow>
   detect c = Inr \<lparr>scene = ascii ''other/legal'', confidence = 3 / 10, keywords = [],
     allScores = zero_scores SCENE_KEYWORDS_engine\<rparr>"
  by (simp only: detect_found no_keyword_found score_entry_empty best_ge_found_empty
        finish_detection_conf conf_of_0 last_scene_engine engine_nonempty if_False take.simps)

lemma no_keyword_in_fallback:
  "no_keyword_in SCENE_KEYWORDS fallback_keyword"
  by (simp add: no_keyword_in_def SCENE_KEYWORDS_def fallback_keyword_def ascii_eval)

lemma no_keyword_in_fallback_engine:
  "no_keyword_in SCENE_KEYWORDS_engine fallback_keyword"
  by (simp add: no_keyword_in_def SCENE_KEYWORDS_engine_def fallback_keyword_def ascii_eval)

lemma no_keyword_in_empty:
  "no_keyword_in SCENE_KEYWORDS []"
  by (simp add: no_keyword_in_def SCENE_KEYWORDS_def ascii_eval)

lemma no_keyword_in_empty_engine:
  "no_keyword_in SCENE_KEYWORDS_engine []"
  by (simp add: no_keyword_in_def SCENE_KEYWORDS_engine_def ascii_eval)

text \<open>
  Claim C1, as amended. For every content that includes none of the declared keywords,
  the low-confidence override is not taken: the confidence is 0.3 (not 0), the keyword
  list is empty (not the fallback keyword), every score is 0, and the scene is the one
  the search loop leaves: \<open>detectScene\<close> keeps its initial \<open>other/finance\<close>, and
  the engine's \<open>detect\<close> ends on the last declared scene \<open>other/legal\<close>.
\<close>

theorem no_keyword_keeps_loop_result:
  "(no_keyword_in SCENE_KEYWORDS c \<longrightarrow>
      detectScene c = Inr \<lparr>scene = ascii ''other/finance'', confidence = 3 / 10, keywords = [],
        allScores = zero_scores SCENE_KEYWORDS\<rparr>) \<and>
   (no_keyword_in SCENE_KEYWORDS_engine c \<longrightarrow>
      detect c = Inr \<lparr>scene = ascii ''other/legal'', confidence = 3 / 10, keywords = [],
        allScores = zero_scores SCENE_KEYWORDS_engine\<rparr>)"
  using detectScene_no_keyword [of c] detect_no_keyword [of c] by blast

text \<open>The fallback keyword itself is a content without declared keywords.\<close>

theorem no_keyword_keeps_loop_result_witness:
  "no_keyword_in SCENE_KEYWORDS fallback_keyword \<and>
   no_keyword_in SCENE_KEYWORDS_engine fallback_keyword \<and>
   detectScene fallback_keyword =
     Inr \<lparr>scene = ascii ''other/finance'', confidence = 3 / 10, keywords = [],
       allScores = zero_scores SCENE_KEYWORDS\<rparr> \<and>
   detect fallback_keyword =
     Inr \<lparr>scene = ascii ''other/legal'', confidence = 3 / 10, keywords = [],
       allScores = zero_scores SCENE_KEYWORDS_engine\<rparr>"
  using no_keyword_keeps_loop_result [of fallback_keyword]
    no_keyword_in_fallback no_keyword_in_fallback_engine by simp

text \<open>
  Claim C1 as stated fails on the empty content: no keyword occurs in it, and neither
  detector returns \<open>product/weekly\<close>, confidence 0 or the fallback keyword.
\<close>

theorem no_keyword_fallback_counterexample:
  "no_keyword_in SCENE_KEYWORDS [] \<and> no_keyword_in SCENE_KEYWORDS_engine [] \<and>
   returned scene (detectScene []) = Some (ascii ''other/finance'') \<and>
   returned scene (detect []) = Some (ascii ''other/legal'') \<and>
   ascii ''other/finance'' \<noteq> ascii ''product/weekly'' \<and>
   ascii ''other/legal'' \<noteq> ascii ''product/weekly'' \<and>
   returned confidence (detectScene []) = Some (3 / 10) \<and>
   returned confidence (detect []) = Some (3 / 10) \<and>
   returned keywords (detectScene []) = Some [] \<and>
   returned keywords (detect []) = Some []"
  by (simp add: no_keyword_in_empty no_keyword_in_empty_engine detectScene_no_keyword
        detect_no_keyword returned_def ascii_eq_iff)

subsection \<open>Tie-breaking\<close>

lemma first_max_generic:
  "\<exists>m b ks. best_gt_found F (0, b0, Some []) = (m, b, Some ks) \<and>
     (if max_score (map score_entry F) = 0 then b = b0
      else first_max_scene (map score_entry F) = Some b)"
proof (cases "max_score (map score_entry F) = 0")
  case True
  then have "fold max (map (\<lambda>e. length (snd e)) F) 0 = 0" by (simp add: max_score_found)
  then have "best_gt_found F (0, b0, Some []) = (0, b0, Some [])" by (rule best_gt_found_init)
  with True show ?thesis by simp
next
  case False
  then have "0 < fold max (map (\<lambda>e. length (snd e)) F) 0" by (simp add: max_score_found)
  from best_gt_found_first [OF this, of b0 "Some []"]
  obtain e where f: "find (\<lambda>e. length (snd e) = fold max (map (\<lambda>e. length (snd e)) F) 0) F = Some e"
    and b: "best_gt_found F (0, b0, Some []) = (length (snd e), fst e, Some (snd e))" by blast
  have "first_max_scene (map score_entry F) = Some (fst e)"
    by (simp add: first_max_scene_found max_score_found f)
  with False b show ?thesis by simp
qed

lemma last_max_generic:
  assumes "F \<noteq> []"
  shows "\<exists>m b ks. best_ge_found F (0, b0, Some []) = (m, b, Some ks) \<and>
     last_max_scene (map score_entry F) = Some b"
proof -
  from assms have "\<exists>e \<in> set F. 0 \<le> length (snd e)" by (cases F) auto
  from best_ge_found_last [OF this, of b0 "Some []"]
  obtain e where f: "find (\<lambda>e. length (snd e) = fold max (map (\<lambda>e. length (snd e)) F) 0) (rev F) = Some e"
    and b: "best_ge_found F (0, b0, Some []) = (length (snd e), fst e, Some (snd e))" by blast
  have "last_max_scene (map score_entry F) = Some (fst e)"
    by (simp add: last_max_scene_found max_score_found f)
  with b show ?thesis by simp
qed

lemma result_first:
  assumes "res = Inr \<lparr>scene = b, confidence = x, keywords = k, allScores = S\<rparr>"
    and "if max_score S = 0 then b = b0 else first_max_scene S = Some b"
  shows "\<exists>r. res = Inr r \<and>
     (if max_score (allScores r) = 0 then scene r = b0
      else first_max_scene (allScores r) = Some (scene r))"
  using assms by (cases "max_score S = 0") auto

lemma result_last:
  assumes "res = Inr \<lparr>scene = b, confidence = x, keywords = k, allScores = S\<rparr>"
    and "last_max_scene S = Some b"
  shows "\<exists>r. res = Inr r \<and> last_max_scene (allScores r) = Some (scene r)"
  using assms by auto

lemma detectScene_first_max:
  "\<exists>r. detectScene c = Inr r \<and>
     (if max_score (allScores r) = 0 then scene r = ascii ''other/finance''
      else first_max_scene (allScores r) = Some (scene r))"
proof -
  let ?F = "map (found_entry c) SCENE_KEYWORDS"
  obtain m b ks where g: "best_gt_found ?F (0, ascii ''other/finance'', Some []) = (m, b, Some ks)"
    and f: "if max_score (map score_entry ?F) = 0 then b = ascii ''other/finance''
         else first_max_scene (map score_entry ?F) = Some b"
    using first_max_generic by blast
  have "detectScene c = Inr \<lparr>scene = b, confidence = conf_of m, keywords = take 5 ks,
      allScores = map score_entry ?F\<rparr>"
    by (simp only: detectScene_found g finish_detection_conf)
  then show ?thesis using f by (rule result_first)
qed

lemma detect_last_max:
  "\<exists>r. detect c = Inr r \<and> last_max_scene (allScores r) = Some (scene r)"
proof -
  let ?F = "map (found_entry c) SCENE_KEYWORDS_engine"
  have "?F \<noteq> []" using engine_nonempty by simp
  then obtain m b ks where g: "best_ge_found ?F (0, ascii ''other/finance'', Some []) = (m, b, Some ks)"
    and f: "last_max_scene (map score_entry ?F) = Some b"
    using last_max_generic by blast
  have "detect c = Inr \<lparr>scene = b, confidence = conf_of m, keywords = take 5 ks,
      allScores = map score_entry ?F\<rparr>"
    by (simp only: detect_found g finish_detection_conf)
  then show ?thesis using f by (rule result_last)
qed

lemma channel_detection:
  "\<exists>S. detectScene channel_content =
          Inr \<lparr>scene = ascii ''marketing/partnership'', confidence = 1 / 3,
               keywords = [channel_content], allScores = S\<rparr> \<and>
        detect channel_content =
          Inr \<lparr>scene = ascii ''sales/channel'', confidence = 1 / 3,
               keywords = [channel_content], allScores = S\<rparr> \<and>
        max_score S = 1"
  by (simp add: detectScene_found detect_found found_entry_def hits_def SCENE_KEYWORDS_def
        SCENE_KEYWORDS_engine_def channel_content_def finish_detection_conf conf_of_def
        score_entry_def max_score_def ascii_eval)

text \<open>
  Claim C3, as amended. \<open>detectScene\<close> (strict comparison) returns the first scene
  that attains the maximal score whenever that score is positive, and its initial
  \<open>other/finance\<close> when every score is 0; the engine's \<open>detect\<close> (non-strict
  comparison) always returns the last scene that attains the maximal score. There is a
  content on which both compute the same scores, with a positive maximum, and return
  different scenes.
\<close>

theorem tie_breaking:
  "(\<exists>r. detectScene c = Inr r \<and>
      (if max_score (allScores r) = 0 then scene r = ascii ''other/finance''
       else first_max_scene (allScores r) = Some (scene r))) \<and>
   (\<exists>r. detect c = Inr r \<and> last_max_scene (allScores r) = Some (scene r)) \<and>
   (\<exists>c' r r'. detectScene c' = Inr r \<and> detect c' = Inr r' \<and> allScores r = allScores r' \<and>
      0 < max_score (allScores r) \<and> scene r \<noteq> scene r')"
proof (intro conjI)
  show "\<exists>r. detectScene c = Inr r \<and>
      (if max_score (allScores r) = 0 then scene r = ascii ''other/finance''
       else first_max_scene (allScores r) = Some (scene r))"
    by (rule detectScene_first_max)
  show "\<exists>r. detect c = Inr r \<and> last_max_scene (allScores r) = Some (scene r)"
    by (rule detect_last_max)
  obtain S where "detectScene channel_content =
          Inr \<lparr>scene = ascii ''marketing/partnership'', confidence = 1 / 3,
               keywords = [channel_content], allScores = S\<rparr>"
    and "detect channel_content =
          Inr \<lparr>scene = ascii ''sales/channel'', confidence = 1 / 3,
               keywords = [channel_content], allScores = S\<rparr>"
    and "max_score S = 1"
    using channel_detection by blast
  then show "\<exists>c' r r'. detectScene c' = Inr r \<and> detect c' = Inr r' \<and>
      allScores r = allScores r' \<and> 0 < max_score (allScores r) \<and> scene r \<noteq> scene r'"
    by (intro exI [of _ channel_content]) (simp add: ascii_eq_iff)
qed

lemma first_max_zero_scores:
  "first_max_scene (zero_scores SCENE_KEYWORDS) = Some (ascii ''product/weekly'')"
  by (simp add: first_max_scene_def max_score_def zero_scores_def SCENE_KEYWORDS_def)

text \<open>
  Claim C3 as stated fails on the empty content: every scene attains the maximal score
  0, the first of them is \<open>product/weekly\<close>, and \<open>detectScene\<close> returns
  \<open>other/finance\<close>.
\<close>

theorem first_max_counterexample:
  "returned scene (detectScene []) = Some (ascii ''other/finance'') \<and>
   returned (first_max_scene \<circ> allScores) (detectScene []) = Some (Some (ascii ''product/weekly'')) \<and>
   ascii ''other/finance'' \<noteq> ascii ''product/weekly''"
  by (simp add: detectScene_no_keyword [OF no_keyword_in_empty] returned_def
        first_max_zero_scores ascii_eq_iff)

subsection \<open>The score of one scene\<close>










subsection \<open>The end-to-end scenario\<close>

lemma weekly_keywords:
  "obj_get SCENE_KEYWORDS (ascii ''product/weekly'') =
     Some [[0x4EA7, 0x54C1, 0x5468, 0x4F1A], [0x4E0A, 0x5468], [0x672C, 0x5468], [0x9700, 0x6C42],
           [0x6392, 0x671F], [0x4E0A, 0x7EBF], [0x8FED, 0x4EE3], ascii ''sprint'',
           ascii ''feature'', ascii ''roadmap'']"
  by (simp add: obj_get_def SCENE_KEYWORDS_def ascii_eq_iff)

lemma weekly_keywords_engine:
  "obj_get SCENE_KEYWORDS_engine (ascii ''product/weekly'') =
     Some [[0x4EA7, 0x54C1, 0x5468, 0x4F1A], [0x4E0A, 0x5468], [0x672C, 0x5468], [0x9700, 0x6C42],
           [0x6392, 0x671F], [0x4E0A, 0x7EBF], [0x8FED, 0x4EE3], ascii ''sprint'',
           ascii ''feature'', ascii ''roadmap'']"
  by (simp add: obj_get_def SCENE_KEYWORDS_engine_def ascii_eq_iff)

lemma weekly_subseq:
  "subseq [[0x4EA7, 0x54C1, 0x5468, 0x4F1A], [0x672C, 0x5468], [0x9700, 0x6C42], [0x6392, 0x671F]]
     [[0x4EA7, 0x54C1, 0x5468, 0x4F1A], [0x4E0A, 0x5468], [0x672C, 0x5468], [0x9700, 0x6C42],
      [0x6392, 0x671F], [0x4E0A, 0x7EBF], [0x8FED, 0x4EE3], ascii ''sprint'',
      ascii ''feature'', ascii ''roadmap'' :: jsstring]"
  by simp

lemma weekly_detectScene:
  "\<exists>S. detectScene weekly_content =
      Inr \<lparr>scene = ascii ''product/weekly'', confidence = 1,
           keywords = [[0x4EA7, 0x54C1, 0x5468, 0x4F1A], [0x672C, 0x5468], [0x9700, 0x6C42],
                       [0x6392, 0x671F]],
           allScores = S\<rparr> \<and> obj_get S (ascii ''product/weekly'') = Some 4"
  by (simp add: detectScene_found found_entry_def hits_def SCENE_KEYWORDS_def
        weekly_content_def finish_detection_conf conf_of_def score_entry_def obj_get_def
        ascii_eval)

lemma weekly_detect:
  "\<exists>S. detect weekly_content =
      Inr \<lparr>scene = ascii ''product/weekly'', confidence = 1,
           keywords = [[0x4EA7, 0x54C1, 0x5468, 0x4F1A], [0x672C, 0x5468], [0x9700, 0x6C42],
                       [0x6392, 0x671F]],
           allScores = S\<rparr> \<and> obj_get S (ascii ''product/weekly'') = Some 4"
  by (simp add: detect_found found_entry_def hits_def SCENE_KEYWORDS_engine_def
        weekly_content_def finish_detection_conf conf_of_def score_entry_def obj_get_def
        ascii_eval)

text \<open>
  Claim C6. On the content of the scenario both detectors return the scene
  \<open>product/weekly\<close>, the confidence \<open>min (4/3) 1 = 1\<close>, four keywords that are a
  subsequence of the declared keyword list of \<open>product/weekly\<close>, and the score 4 for
  \<open>product/weekly\<close> in \<open>allScores\<close>.
\<close>

theorem weekly_scenario:
  "(\<exists>r kws. detectScene weekly_content = Inr r \<and> scene r = ascii ''product/weekly'' \<and>
      confidence r = min (4 / 3) 1 \<and> confidence r = 1 \<and> keywords r =
        [[0x4EA7, 0x54C1, 0x5468, 0x4F1A], [0x672C, 0x5468], [0x9700, 0x6C42], [0x6392, 0x671F]] \<and>
      length (keywords r) = 4 \<and>
      obj_get SCENE_KEYWORDS (ascii ''product/weekly'') = Some kws \<and> subseq (keywords r) kws \<and>
      obj_get (allScores r) (ascii ''product/weekly'') = Some 4) \<and>
   (\<exists>r kws. detect weekly_content = Inr r \<and> scene r = ascii ''product/weekly'' \<and>
      confidence r = min (4 / 3) 1 \<and> confidence r = 1 \<and> keywords r =
        [[0x4EA7, 0x54C1, 0x5468, 0x4F1A], [0x672C, 0x5468], [0x9700, 0x6C42], [0x6392, 0x671F]] \<and>
      length (keywords r) = 4 \<and>
      obj_get SCENE_KEYWORDS_engine (ascii ''product/weekly'') = Some kws \<and>
      subseq (keywords r) kws \<and>
      obj_get (allScores r) (ascii ''product/weekly'') = Some 4)"
proof
  obtain S where "detectScene weekly_content =
      Inr \<lparr>scene = ascii ''product/weekly'', confidence = 1,
           keywords = [[0x4EA7, 0x54C1, 0x5468, 0x4F1A], [0x672C, 0x5468], [0x9700, 0x6C42],
                       [0x6392, 0x671F]],
           allScores = S\<rparr>" and "obj_get S (ascii ''product/weekly'') = Some 4"
    using weekly_detectScene by blast
  then show "\<exists>r kws. detectScene weekly_content = Inr r \<and> scene r = ascii ''product/weekly'' \<and>
      confidence r = min (4 / 3) 1 \<and> confidence r = 1 \<and> keywords r =
        [[0x4EA7, 0x54C1, 0x5468, 0x4F1A], [0x672C, 0x5468], [0x9700, 0x6C42], [0x6392, 0x671F]] \<and>
      length (keywords r) = 4 \<and>
      obj_get SCENE_KEYWORDS (ascii ''product/weekly'') = Some kws \<and> subseq (keywords r) kws \<and>
      obj_get (allScores r) (ascii ''product/weekly'') = Some 4"
    using weekly_subseq by (simp only: weekly_keywords) simp
next
  obtain S where "detect weekly_content =
      Inr \<lparr>scene = ascii ''product/weekly'', confidence = 1,
           keywords = [[0x4EA7, 0x54C1, 0x5468, 0x4F1A], [0x672C, 0x5468], [0x9700, 0x6C42],
                       [0x6392, 0x671F]],
           allScores = S\<rparr>" and "obj_get S (ascii ''product/weekly'') = Some 4"
    using weekly_detect by blast
  then show "\<exists>r kws. detect weekly_content = Inr r \<and> scene r = ascii ''product/weekly'' \<and>
      confidence r = min (4 / 3) 1 \<and> confidence r = 1 \<and> keywords r =
        [[0x4EA7, 0x54C1, 0x5468, 0x4F1A], [0x672C, 0x5468], [0x9700, 0x6C42], [0x6392, 0x671F]] \<and>
      length (keywords r) = 4 \<and>
      obj_get SCENE_KEYWORDS_engine (ascii ''product/weekly'') = Some kws \<and>
      subseq (keywords r) kws \<and>
      obj_get (allScores r) (ascii ''product/weekly'') = Some 4"
    using weekly_subseq by (simp only: weekly_keywords_engine) simp
qed

section \<open>Properties of the prompt version store\<close>

subsection \<open>File names of versions\<close>

lemma decimal_value: "foldl (\<lambda>acc d. 10 * acc + (d - 48)) 0 (decimal n) = n"
proof (induction n rule: decimal.induct)
  case (1 n)
  show ?case
  proof (cases "n < 10")
    case True
    then show ?thesis by (simp add: decimal.simps [of n])
  next
    case False
    then have d: "decimal n = decimal (n div 10) @ [48 + n mod 10]"
      by (subst decimal.simps) simp
    have ih: "foldl (\<lambda>acc d. 10 * acc + (d - 48)) 0 (decimal (n div 10)) = n div 10"
      using False by (rule 1)
    have "foldl (\<lambda>acc d. 10 * acc + (d - 48)) 0 (decimal n) = 10 * (n div 10) + n mod 10"
      by (simp only: d foldl_append foldl.simps ih add_diff_cancel_left')
    then show ?thesis by simp
  qed
qed

lemma decimal_inj: "decimal a = decimal b \<Longrightarrow> a = b"
  by (metis decimal_value)

lemma vname_inj: "vname a = vname b \<Longrightarrow> a = b"
  by (simp add: vname_def decimal_inj)

lemma is_version_vname: "is_version_file (vname n)"
  by (simp add: is_version_file_def vname_def startsWith_def endsWith_def suffix_def)

lemma set_obj_set: "fst ` set (obj_set f c d) = insert f (fst ` set d)"
proof (induction d)
  case Nil
  then show ?case by simp
next
  case (Cons e d)
  obtain a b where e: "e = (a, b)" by (cases e)
  show ?case
  proof (cases "f = a")
    case True
    then show ?thesis by (simp add: e)
  next
    case False
    then show ?thesis using Cons.IH by (simp add: e insert_commute)
  qed
qed

lemma obj_get_obj_set: "obj_get (obj_set f c d) g = (if g = f then Some c else obj_get d g)"
  by (induction d) (auto simp: obj_get_def)

lemma read_file_dir_of: "read_file st (scn, f) = obj_get (dir_of st scn) f"
  by (simp add: read_file_def dir_of_def obj_get_def split: option.split)

lemma length_listPromptVersions:
  "length (listPromptVersions st scn) = length (version_files st scn)"
  by (simp add: listPromptVersions_def version_files_def dir_of_def readdirSync_def
      split: option.split)

lemma distinct_version_files: "distinct (version_files st scn)"
  by (simp add: version_files_def readdirSync_def)

lemma no_version_files_iff: "no_version_files st scn \<longleftrightarrow> version_files st scn = []"
  by (simp add: no_version_files_def version_files_def dir_of_def readdirSync_def
      split: option.split)

lemma dir_of_ensure_dir: "dir_of (ensure_dir scn st) s = dir_of st s"
  by (simp add: ensure_dir_def dir_of_def split: option.split)

lemma length_version_files:
  assumes "set (version_files st scn) = vname ` {1..k}"
  shows "length (version_files st scn) = k"
proof -
  have "inj_on vname {1..k}" by (auto simp: inj_on_def dest: vname_inj)
  then have "card (vname ` {1..k}) = k" by (simp add: card_image)
  with assms show ?thesis
    using distinct_card [OF distinct_version_files [of st scn]] by simp
qed

subsection \<open>One update of the index\<close>

lemma has_versions_iff:
  "has_versions r \<longleftrightarrow>
     (\<exists>rs ws. r = JObj rs \<and> obj_get rs (ascii ''versions'') = Some (JArr ws))"
  by (cases r; simp add: has_versions_def split: option.split json.split)

lemma push_version_ok:
  assumes "has_versions r"
  shows "\<exists>ms. push_version r e vid = Inr (JObj ms) \<and> has_versions (JObj ms) \<and>
      record_versions (JObj ms) = record_versions r @ [e] \<and>
      obj_get ms (ascii ''current_version'') = Some (JStr vid)"
proof -
  from assms obtain rs ws where r: "r = JObj rs"
    and w: "obj_get rs (ascii ''versions'') = Some (JArr ws)"
    by (auto simp: has_versions_iff)
  let ?ms = "obj_set (ascii ''current_version'') (JStr vid)
               (obj_set (ascii ''versions'') (JArr (ws @ [e])) rs)"
  have "push_version r e vid = Inr (JObj ?ms)"
    by (simp add: push_version_def r w)
  moreover have "obj_get ?ms (ascii ''versions'') = Some (JArr (ws @ [e]))"
    by (simp add: obj_get_obj_set ascii_eq_iff)
  moreover have "obj_get ?ms (ascii ''current_version'') = Some (JStr vid)"
    by (simp add: obj_get_obj_set)
  ultimately show ?thesis
    by (simp add: has_versions_def record_versions_def r w)
qed

lemma fresh_scene_versions: "has_versions fresh_scene" "record_versions fresh_scene = []"
  by (simp_all add: fresh_scene_def has_versions_def record_versions_def obj_get_def)

lemma falsy_versions: "\<not> truthy r \<Longrightarrow> record_versions r = []"
  by (cases r) (simp_all add: record_versions_def)

lemma init_and_push_ok:
  assumes "case slot of None \<Rightarrow> True | Some r \<Rightarrow> \<not> truthy r \<or> has_versions r"
  shows "\<exists>ms. init_and_push slot e vid = Inr (JObj ms) \<and> has_versions (JObj ms) \<and>
      record_versions (JObj ms) =
        (case slot of None \<Rightarrow> [] | Some r \<Rightarrow> record_versions r) @ [e] \<and>
      obj_get ms (ascii ''current_version'') = Some (JStr vid)"
proof (cases slot)
  case None
  then show ?thesis
    using push_version_ok [OF fresh_scene_versions(1), of e vid]
    by (simp add: init_and_push_def fresh_scene_versions)
next
  case (Some r)
  show ?thesis
  proof (cases "truthy r")
    case True
    with assms Some have "has_versions r" by simp
    from push_version_ok [OF this, of e vid] show ?thesis
      by (simp add: init_and_push_def Some True)
  next
    case False
    then show ?thesis
      using push_version_ok [OF fresh_scene_versions(1), of e vid]
      by (simp add: init_and_push_def Some fresh_scene_versions falsy_versions)
  qed
qed

lemma update_scenes_ok:
  assumes "case obj_get so scn of
             None \<Rightarrow> scn \<notin> set object_prototype_names
           | Some r \<Rightarrow> \<not> truthy r \<or> has_versions r"
  shows "\<exists>so' ms. update_scenes (JObj so) scn e vid = Inr (JObj so') \<and>
      obj_get so' scn = Some (JObj ms) \<and> has_versions (JObj ms) \<and>
      record_versions (JObj ms) =
        (case obj_get so scn of None \<Rightarrow> [] | Some r \<Rightarrow> record_versions r) @ [e] \<and>
      obj_get ms (ascii ''current_version'') = Some (JStr vid)"
proof -
  have "case obj_get so scn of None \<Rightarrow> True | Some r \<Rightarrow> \<not> truthy r \<or> has_versions r"
    using assms by (simp split: option.splits)
  from init_and_push_ok [OF this, of e vid]
  obtain ms where p: "init_and_push (obj_get so scn) e vid = Inr (JObj ms)"
    and h: "has_versions (JObj ms)"
    and v: "record_versions (JObj ms) =
        (case obj_get so scn of None \<Rightarrow> [] | Some r \<Rightarrow> record_versions r) @ [e]"
    and c: "obj_get ms (ascii ''current_version'') = Some (JStr vid)"
    by blast
  have "\<not> (obj_get so scn = None \<and> scn \<in> set object_prototype_names)"
    using assms by (auto split: option.splits)
  then have "update_scenes (JObj so) scn e vid = Inr (JObj (obj_set scn (JObj ms) so))"
    by (simp add: update_scenes_def p)
  moreover have "obj_get (obj_set scn (JObj ms) so) scn = Some (JObj ms)"
    by (simp add: obj_get_obj_set)
  ultimately show ?thesis using h v c by blast
qed

text \<open>An index that can take a version of the scene: its shape.\<close>

lemma index_usable_shape:
  assumes "index_usable scn ix"
  obtains ms so where
    "(case ix of No_index \<Rightarrow> Inr (JObj [(ascii ''scenes'', JObj [])])
              | Bad_index \<Rightarrow> Inl SyntaxError
              | Index j \<Rightarrow> Inr j) = Inr (JObj ms)"
    and "obj_get ms (ascii ''scenes'') = Some (JObj so)"
    and "scene_record scn ix = obj_get so scn"
    and "case obj_get so scn of
           None \<Rightarrow> scn \<notin> set object_prototype_names
         | Some r \<Rightarrow> \<not> truthy r \<or> has_versions r"
proof (cases ix)
  case No_index
  with assms have "scn \<notin> set object_prototype_names" by (simp add: index_usable_def)
  then show ?thesis
    using that [of "[(ascii ''scenes'', JObj [])]" "[]"]
    by (simp add: No_index scene_record_def obj_get_def)
next
  case Bad_index
  with assms show ?thesis by (simp add: index_usable_def)
next
  case (Index j)
  with assms obtain ms so where "j = JObj ms" "obj_get ms (ascii ''scenes'') = Some (JObj so)"
    "case obj_get so scn of
       None \<Rightarrow> scn \<notin> set object_prototype_names
     | Some r \<Rightarrow> \<not> truthy r \<or> has_versions r"
    by (auto simp: index_usable_def split: json.splits option.splits)
  then show ?thesis
    using that [of ms so] by (simp add: Index scene_record_def)
qed

lemma updatePromptIndex_ok:
  assumes "index_usable scn (index_json st)"
  shows "\<exists>j. updatePromptIndex now scn v nt st = Inr (st\<lparr>index_json := Index j\<rparr>) \<and>
      index_usable scn (Index j) \<and>
      index_versions scn (st\<lparr>index_json := Index j\<rparr>) =
        index_versions scn st @ [version_entry v now nt] \<and>
      index_current scn (st\<lparr>index_json := Index j\<rparr>) = Some (JStr (ascii ''v'' @ decimal v))"
proof -
  from assms obtain ms so where
    p: "(case index_json st of No_index \<Rightarrow> Inr (JObj [(ascii ''scenes'', JObj [])])
              | Bad_index \<Rightarrow> Inl SyntaxError
              | Index j \<Rightarrow> Inr j) = Inr (JObj ms)"
    and s: "obj_get ms (ascii ''scenes'') = Some (JObj so)"
    and r: "scene_record scn (index_json st) = obj_get so scn"
    and u: "case obj_get so scn of
           None \<Rightarrow> scn \<notin> set object_prototype_names
         | Some r \<Rightarrow> \<not> truthy r \<or> has_versions r"
    by (rule index_usable_shape)
  from update_scenes_ok [OF u, of "version_entry v now nt" "ascii ''v'' @ decimal v"]
  obtain so' rs where
    us: "update_scenes (JObj so) scn (version_entry v now nt) (ascii ''v'' @ decimal v) =
      Inr (JObj so')"
    and g: "obj_get so' scn = Some (JObj rs)"
    and h: "has_versions (JObj rs)"
    and w: "record_versions (JObj rs) =
        (case obj_get so scn of None \<Rightarrow> [] | Some r \<Rightarrow> record_versions r) @
        [version_entry v now nt]"
    and c: "obj_get rs (ascii ''current_version'') = Some (JStr (ascii ''v'' @ decimal v))"
    by blast
  let ?j = "JObj (obj_set (ascii ''scenes'') (JObj so') ms)"
  have res: "updatePromptIndex now scn v nt st = Inr (st\<lparr>index_json := Index ?j\<rparr>)"
    unfolding updatePromptIndex_def p by (simp add: s us)
  have rec: "scene_record scn (Index ?j) = Some (JObj rs)"
    by (simp add: scene_record_def obj_get_obj_set g)
  have "index_usable scn (Index ?j)"
    using h by (simp add: index_usable_def obj_get_obj_set g)
  moreover have "index_versions scn (st\<lparr>index_json := Index ?j\<rparr>) =
      index_versions scn st @ [version_entry v now nt]"
    by (simp add: index_versions_def rec w r)
  moreover have "index_current scn (st\<lparr>index_json := Index ?j\<rparr>) =
      Some (JStr (ascii ''v'' @ decimal v))"
    by (simp add: index_current_def rec c)
  ultimately show ?thesis using res by blast
qed

text \<open>One save: the file is written, then the index is updated.\<close>

lemma savePromptVersion_eq:
  "savePromptVersion now scn c nt st =
    (case updatePromptIndex now scn (Suc (length (version_files st scn))) nt
            (st\<lparr>prompts := (prompts st)(scn \<mapsto>
               obj_set (vname (Suc (length (version_files st scn)))) c (dir_of st scn))\<rparr>) of
       Inl e \<Rightarrow> Inl e
     | Inr st3 \<Rightarrow>
         Inr ((Suc (length (version_files st scn)),
               (scn, vname (Suc (length (version_files st scn))))), st3))"
proof -
  let ?n = "Suc (length (version_files st scn))"
  have n: "length (listPromptVersions (ensure_dir scn st) scn) + 1 = ?n"
    by (simp add: length_listPromptVersions version_files_def dir_of_ensure_dir)
  have w: "writeFileSync (scn, vname ?n) c (ensure_dir scn st) =
      Inr (st\<lparr>prompts := (prompts st)(scn \<mapsto> obj_set (vname ?n) c (dir_of st scn))\<rparr>)"
    by (simp add: writeFileSync_def ensure_dir_def dir_of_def split: option.split)
  show ?thesis
    unfolding savePromptVersion_def Let_def n vname_def
    by (simp add: w [unfolded vname_def])
qed

lemma save_step:
  assumes inv: "set (version_files st scn) = vname ` {1..k}"
    and ok: "index_usable scn (index_json st)"
  shows "\<exists>st'. savePromptVersion now scn c nt st = Inr ((Suc k, (scn, vname (Suc k))), st') \<and>
      set (version_files st' scn) = vname ` {1..Suc k} \<and>
      index_usable scn (index_json st') \<and>
      index_versions scn st' = index_versions scn st @ [version_entry (Suc k) now nt] \<and>
      index_current scn st' = Some (JStr (ascii ''v'' @ decimal (Suc k))) \<and>
      (\<forall>f. read_file st' (scn, f) = (if f = vname (Suc k) then Some c else read_file st (scn, f)))"
proof -
  have len: "length (version_files st scn) = k" using inv by (rule length_version_files)
  define st2 where
    "st2 = st\<lparr>prompts := (prompts st)(scn \<mapsto> obj_set (vname (Suc k)) c (dir_of st scn))\<rparr>"
  have ix: "index_json st2 = index_json st" by (simp add: st2_def)
  have iv: "index_versions scn st2 = index_versions scn st"
    by (simp add: index_versions_def ix)
  from ok have "index_usable scn (index_json st2)" by (simp add: ix)
  from updatePromptIndex_ok [OF this, of now "Suc k" nt]
  obtain j where u: "updatePromptIndex now scn (Suc k) nt st2 = Inr (st2\<lparr>index_json := Index j\<rparr>)"
    and o: "index_usable scn (Index j)"
    and v: "index_versions scn (st2\<lparr>index_json := Index j\<rparr>) =
        index_versions scn st @ [version_entry (Suc k) now nt]"
    and cu: "index_current scn (st2\<lparr>index_json := Index j\<rparr>) =
        Some (JStr (ascii ''v'' @ decimal (Suc k)))"
    unfolding iv by blast
  define st' where "st' = st2\<lparr>index_json := Index j\<rparr>"
  have s: "savePromptVersion now scn c nt st = Inr ((Suc k, (scn, vname (Suc k))), st')"
    using u by (simp add: savePromptVersion_eq len st2_def [symmetric] st'_def)
  have d: "dir_of st' scn = obj_set (vname (Suc k)) c (dir_of st scn)"
    by (simp add: st'_def st2_def dir_of_def)
  have "set (version_files st' scn) = insert (vname (Suc k)) (set (version_files st scn))"
    using is_version_vname [of "Suc k"]
    by (auto simp: version_files_def d readdirSync_def set_obj_set)
  also have "\<dots> = vname ` {1..Suc k}"
    by (simp add: inv atLeastAtMostSuc_conv)
  finally have i: "set (version_files st' scn) = vname ` {1..Suc k}" .
  have o': "index_usable scn (index_json st')" using o by (simp add: st'_def)
  have r: "\<forall>f. read_file st' (scn, f) = (if f = vname (Suc k) then Some c else read_file st (scn, f))"
    by (simp add: read_file_dir_of d obj_get_obj_set)
  from s i o' v cu r show ?thesis unfolding st'_def [symmetric] by blast
qed

lemma save_all_gen:
  assumes "set (version_files st scn) = vname ` {1..k}" and "index_usable scn (index_json st)"
  shows "\<exists>st'. save_all args scn st = Inr ([Suc k..<Suc k + length args], st') \<and>
      set (version_files st' scn) = vname ` {1..k + length args} \<and>
      index_usable scn (index_json st') \<and>
      index_versions scn st' = index_versions scn st @ saved_entries k args \<and>
      (args \<noteq> [] \<longrightarrow>
         index_current scn st' = Some (JStr (ascii ''v'' @ decimal (k + length args)))) \<and>
      (\<forall>i<length args. read_file st' (scn, vname (Suc k + i)) = Some (fst (snd (args ! i)))) \<and>
      (\<forall>f. f \<notin> vname ` {Suc k..k + length args} \<longrightarrow>
         read_file st' (scn, f) = read_file st (scn, f))"
  using assms
proof (induction args arbitrary: k st)
  case Nil
  then show ?case by simp
next
  case (Cons a args)
  obtain now c nt where a: "a = (now, c, nt)" by (cases a)
  from save_step [OF Cons.prems, of now c nt]
  obtain st1 where s1: "savePromptVersion now scn c nt st = Inr ((Suc k, (scn, vname (Suc k))), st1)"
    and i1: "set (version_files st1 scn) = vname ` {1..Suc k}"
    and o1: "index_usable scn (index_json st1)"
    and v1: "index_versions scn st1 = index_versions scn st @ [version_entry (Suc k) now nt]"
    and c1: "index_current scn st1 = Some (JStr (ascii ''v'' @ decimal (Suc k)))"
    and r1: "\<And>f. read_file st1 (scn, f) = (if f = vname (Suc k) then Some c else read_file st (scn, f))"
    by blast
  from Cons.IH [OF i1 o1]
  obtain st2 where s2: "save_all args scn st1 = Inr ([Suc (Suc k)..<Suc (Suc k) + length args], st2)"
    and i2: "set (version_files st2 scn) = vname ` {1..Suc k + length args}"
    and o2: "index_usable scn (index_json st2)"
    and v2: "index_versions scn st2 = index_versions scn st1 @ saved_entries (Suc k) args"
    and c2: "args \<noteq> [] \<longrightarrow>
          index_current scn st2 = Some (JStr (ascii ''v'' @ decimal (Suc k + length args)))"
    and r2: "\<And>i. i < length args \<Longrightarrow>
          read_file st2 (scn, vname (Suc (Suc k) + i)) = Some (fst (snd (args ! i)))"
    and u2: "\<And>f. f \<notin> vname ` {Suc (Suc k)..Suc k + length args} \<Longrightarrow>
          read_file st2 (scn, f) = read_file st1 (scn, f)"
    by blast
  have up: "[Suc k..<Suc k + length (a # args)] = Suc k # [Suc (Suc k)..<Suc (Suc k) + length args]"
    by (subst upt_rec) simp
  have res: "save_all (a # args) scn st = Inr ([Suc k..<Suc k + length (a # args)], st2)"
    unfolding up by (simp add: a s1 s2)
  have e: "Suc k + length args = k + length (a # args)" by simp
  have inv: "set (version_files st2 scn) = vname ` {1..k + length (a # args)}"
    using i2 unfolding e .
  have vs: "index_versions scn st2 = index_versions scn st @ saved_entries k (a # args)"
    by (simp add: v2 v1 a)
  have cur: "index_current scn st2 = Some (JStr (ascii ''v'' @ decimal (k + length (a # args))))"
  proof (cases "args = []")
    case True
    then have "st2 = st1" using s2 by simp
    with True c1 show ?thesis by simp
  next
    case False
    with c2 show ?thesis unfolding e by simp
  qed
  have notin: "vname (Suc k) \<notin> vname ` {Suc (Suc k)..Suc k + length args}"
    by (auto dest: vname_inj)
  have rd: "\<forall>i<length (a # args).
      read_file st2 (scn, vname (Suc k + i)) = Some (fst (snd ((a # args) ! i)))"
  proof (intro allI impI)
    fix i assume "i < length (a # args)"
    show "read_file st2 (scn, vname (Suc k + i)) = Some (fst (snd ((a # args) ! i)))"
    proof (cases i)
      case 0
      then show ?thesis using u2 [OF notin] r1 by (simp add: a)
    next
      case (Suc j)
      with \<open>i < length (a # args)\<close> have "j < length args" by simp
      from r2 [OF this] Suc show ?thesis by simp
    qed
  qed
  have un: "\<forall>f. f \<notin> vname ` {Suc k..k + length (a # args)} \<longrightarrow>
      read_file st2 (scn, f) = read_file st (scn, f)"
  proof (intro allI impI)
    fix f assume f: "f \<notin> vname ` {Suc k..k + length (a # args)}"
    have sub: "{Suc (Suc k)..Suc k + length args} \<subseteq> {Suc k..k + length (a # args)}" by auto
    have "Suc k \<in> {Suc k..k + length (a # args)}" by simp
    with f have ne: "f \<noteq> vname (Suc k)" by blast
    from f sub have "f \<notin> vname ` {Suc (Suc k)..Suc k + length args}" by blast
    from u2 [OF this] ne r1 show "read_file st2 (scn, f) = read_file st (scn, f)" by simp
  qed
  from res inv o2 vs cur rd un show ?case by blast
qed

subsection \<open>The prompt that a call without version argument resolves to\<close>

lemma sorted_le_last: "sorted xs \<Longrightarrow> x \<in> set xs \<Longrightarrow> x \<le> last xs"
  by (induction xs) auto

lemma rev_sort_greatest:
  fixes m :: "'a::linorder"
  assumes "m \<in> set xs" and "\<forall>x \<in> set xs. x \<le> m"
  shows "\<exists>ys. rev (sort xs) = m # ys"
proof -
  have ne: "sort xs \<noteq> []"
    by (metis assms(1) empty_iff empty_set length_0_conv length_sort)
  then have "last (sort xs) \<in> set (sort xs)" by (rule last_in_set)
  then have "last (sort xs) \<le> m" using assms(2) by simp
  moreover have "m \<le> last (sort xs)" using assms(1) by (intro sorted_le_last) simp_all
  ultimately have "last (sort xs) = m" by simp
  with ne have "rev (sort xs) = m # rev (butlast (sort xs))"
    by (metis append_butlast_last_id rev.simps(2) rev_rev_ident rev_append append_Cons append_Nil rev_singleton_conv)
  then show ?thesis by blast
qed

lemma existsSync_read_file:
  "prompts st scn = Some d \<Longrightarrow> existsSync d f \<longleftrightarrow> read_file st (scn, f) \<noteq> None"
  by (simp add: existsSync_def read_file_def obj_get_def map_of_eq_None_iff)

lemma getPromptByScene_latest:
  assumes v: "m \<in> set (version_files st scn)" and g: "\<forall>x \<in> set (version_files st scn). x \<le> m"
    and n: "read_file st (scn, ascii ''default.md'') = None"
  shows "getPromptByScene st scn None = Inr (scn, m)"
proof -
  from v have "dir_of st scn \<noteq> []" by (auto simp: version_files_def readdirSync_def)
  then obtain d where d: "prompts st scn = Some d" by (auto simp: dir_of_def split: option.splits)
  then have vf: "filter is_version_file (readdirSync d) = version_files st scn"
    by (simp add: version_files_def dir_of_def)
  from rev_sort_greatest [OF v g] obtain ys where "rev (sort (version_files st scn)) = m # ys"
    by blast
  moreover have "\<not> existsSync d (ascii ''default.md'')"
    using n by (simp add: existsSync_read_file [OF d])
  ultimately show ?thesis
    by (simp add: getPromptByScene_def d default_or_latest_def vf)
qed

lemma decimal_digit: "n < 10 \<Longrightarrow> decimal n = [48 + n]"
  by (subst decimal.simps) simp

lemma decimal_10: "decimal 10 = [49, 48]"
  by (subst decimal.simps) (simp add: decimal_digit)

lemma ascii_v: "ascii ''v'' = [118]"
  by (simp add: ascii_def)

lemma vname_le_9:
  assumes "i \<in> {1..10}"
  shows "vname i \<le> vname 9"
proof (cases "i = 10")
  case True
  then show ?thesis by (simp add: vname_def decimal_10 decimal_digit ascii_v)
next
  case False
  with assms have "i < 10" by simp
  then have "48 + i < 57 \<or> 48 + i = 57" by arith
  with \<open>i < 10\<close> show ?thesis by (auto simp: vname_def decimal_digit ascii_v)
qed

lemma vname_9: "vname 9 = ascii ''v9.md''"
  by (simp add: vname_def decimal_digit ascii_def)

lemma vname_10: "vname 10 = ascii ''v10.md''"
  by (simp add: vname_def decimal_10 ascii_def)

subsection \<open>Saving a sequence of versions\<close>



lemma empty_store_clean:
  "no_version_files empty_store scn" "index_json empty_store = No_index"
  "read_file empty_store (scn, f) = None" "index_versions scn empty_store = []"
  by (simp_all add: empty_store_def no_version_files_def read_file_def index_versions_def
      scene_record_def)

lemma weekly_index_usable:
  "index_usable (ascii ''product/weekly'') (index_json empty_store)"
  by (simp add: empty_store_clean index_usable_def object_prototype_names_def ascii_eq_iff)








subsection \<open>The tenth save\<close>

text \<open>
  Claim C8 at ten saves into a store with nothing on disk (so no \<open>default.md\<close>): the
  tenth save writes \<open>v10.md\<close>, and \<open>getPromptByScene\<close> without a version argument
  resolves to \<open>v9.md\<close>, whose content is the ninth prompt, because \<open>v9.md\<close> is the
  last name in code-unit order.
\<close>

theorem tenth_save_resolves_to_ninth:
  "\<exists>st'. save_all ten_saves (ascii ''product/weekly'') empty_store = Inr ([1..<11], st') \<and>
     read_file st' (ascii ''product/weekly'', ascii ''v10.md'') = Some (ascii ''prompt 10'') \<and>
     getPromptByScene st' (ascii ''product/weekly'') None =
       Inr (ascii ''product/weekly'', ascii ''v9.md'') \<and>
     read_file st' (ascii ''product/weekly'', ascii ''v9.md'') = Some (ascii ''prompt 9'') \<and>
     ascii ''prompt 9'' \<noteq> ascii ''prompt 10''"
proof -
  let ?s = "ascii ''product/weekly''"
  have len: "length ten_saves = 10" by (simp add: ten_saves_def)
  have "set (version_files empty_store ?s) = vname ` {1..0}"
    using empty_store_clean(1) [of ?s] by (simp add: no_version_files_iff)
  from save_all_gen [OF this weekly_index_usable, of ten_saves]
  obtain st' where s: "save_all ten_saves ?s empty_store = Inr ([1..<11], st')"
    and vf: "set (version_files st' ?s) = vname ` {1..10}"
    and rd: "\<And>i. i < 10 \<Longrightarrow> read_file st' (?s, vname (Suc i)) = Some (fst (snd (ten_saves ! i)))"
    and un: "\<And>f. f \<notin> vname ` {1..10} \<Longrightarrow> read_file st' (?s, f) = read_file empty_store (?s, f)"
    by (auto simp: len)
  have r10: "read_file st' (?s, ascii ''v10.md'') = Some (ascii ''prompt 10'')"
    using rd [of 9] by (simp add: vname_10 ten_saves_def)
  have r9: "read_file st' (?s, ascii ''v9.md'') = Some (ascii ''prompt 9'')"
    using rd [of 8] by (simp add: vname_9 ten_saves_def)
  have "ascii ''default.md'' \<notin> vname ` {1..10}"
    by (auto simp: vname_def ascii_def)
  from un [OF this] have nd: "read_file st' (?s, ascii ''default.md'') = None"
    by (simp add: empty_store_clean)
  have m: "vname 9 \<in> set (version_files st' ?s)" by (simp add: vf)
  have g: "\<forall>x \<in> set (version_files st' ?s). x \<le> vname 9"
    using vname_le_9 by (auto simp: vf)
  have "getPromptByScene st' ?s None = Inr (?s, ascii ''v9.md'')"
    using getPromptByScene_latest [OF m g nd] by (simp add: vname_9)
  with s r10 r9 show ?thesis by (auto simp: ascii_eq_iff)
qed

section \<open>Properties of the LLM client and of the command log\<close>

subsection \<open>An unregistered model key\<close>

lemma gpt9_unregistered: "obj_get MODELS (ascii ''gpt-9'') = None"
  by (simp add: obj_get_def MODELS_def ascii_eq_iff)

lemma supported_keys: "js_join (ascii '', '') (map fst MODELS) = ascii ''qwen-max, deepseek-v3, doubao''"
  by (simp add: MODELS_def ascii_def)

text \<open>
  Claim C9. For every environment, every behaviour of \<open>fetch\<close> and every dialogue and
  prompt, \<open>generateSummary\<close> and the engine's \<open>generate\<close> called with the
  unregistered model key \<open>gpt-9\<close> fail with the error of \<open>getModelConfig\<close>, whose
  message contains the supported model keys joined by commas, and they have sent no
  request.
\<close>

theorem unregistered_model_fails_before_request:
  "generateSummary env fetch dialogue prompt_text (ascii ''gpt-9'') =
     (Inl (Error ([0x4E0D, 0x652F, 0x6301, 0x7684, 0x6A21, 0x578B, 0x003A, 0x0020] @
                  ascii ''gpt-9'' @
                  [0x002E, 0x0020, 0x652F, 0x6301, 0x7684, 0x6A21, 0x578B, 0x003A, 0x0020] @
                  ascii ''qwen-max, deepseek-v3, doubao'')), []) \<and>
   generate env fetch \<lparr>data = dialogue, prompt = prompt_text, model = Some (ascii ''gpt-9'')\<rparr> =
     (Inl (Error (ascii ''Unsupported model: gpt-9. Supported: qwen-max, deepseek-v3, doubao'')), []) \<and>
   js_includes ([0x4E0D, 0x652F, 0x6301, 0x7684, 0x6A21, 0x578B, 0x003A, 0x0020] @
                  ascii ''gpt-9'' @
                  [0x002E, 0x0020, 0x652F, 0x6301, 0x7684, 0x6A21, 0x578B, 0x003A, 0x0020] @
                  ascii ''qwen-max, deepseek-v3, doubao'')
     (js_join (ascii '', '') (map fst MODELS)) \<and>
   js_includes (ascii ''Unsupported model: gpt-9. Supported: qwen-max, deepseek-v3, doubao'')
     (js_join (ascii '', '') (map fst MODELS))"
proof (intro conjI)
  show "generateSummary env fetch dialogue prompt_text (ascii ''gpt-9'') =
     (Inl (Error ([0x4E0D, 0x652F, 0x6301, 0x7684, 0x6A21, 0x578B, 0x003A, 0x0020] @
                  ascii ''gpt-9'' @
                  [0x002E, 0x0020, 0x652F, 0x6301, 0x7684, 0x6A21, 0x578B, 0x003A, 0x0020] @
                  ascii ''qwen-max, deepseek-v3, doubao'')), [])"
    by (simp add: generateSummary_def getModelConfig_def gpt9_unregistered supported_keys)
  have "ascii ''Unsupported model: '' @ ascii ''gpt-9'' @ ascii ''. Supported: '' @
      ascii ''qwen-max, deepseek-v3, doubao'' =
      ascii ''Unsupported model: gpt-9. Supported: qwen-max, deepseek-v3, doubao''"
    by (simp add: ascii_def)
  then show "generate env fetch \<lparr>data = dialogue, prompt = prompt_text, model = Some (ascii ''gpt-9'')\<rparr> =
     (Inl (Error (ascii ''Unsupported model: gpt-9. Supported: qwen-max, deepseek-v3, doubao'')), [])"
    by (simp add: generate_def callLLM_def getModelConfig_engine_def gpt9_unregistered
          supported_keys)
  show "js_includes ([0x4E0D, 0x652F, 0x6301, 0x7684, 0x6A21, 0x578B, 0x003A, 0x0020] @
                  ascii ''gpt-9'' @
                  [0x002E, 0x0020, 0x652F, 0x6301, 0x7684, 0x6A21, 0x578B, 0x003A, 0x0020] @
                  ascii ''qwen-max, deepseek-v3, doubao'')
     (js_join (ascii '', '') (map fst MODELS))"
    unfolding js_includes_iff supported_keys by (metis append_Nil2 append_assoc)
  have "ascii ''Unsupported model: gpt-9. Supported: qwen-max, deepseek-v3, doubao'' =
      ascii ''Unsupported model: gpt-9. Supported: '' @ ascii ''qwen-max, deepseek-v3, doubao'' @ []"
    by (simp add: ascii_def)
  then show "js_includes (ascii ''Unsupported model: gpt-9. Supported: qwen-max, deepseek-v3, doubao'')
     (js_join (ascii '', '') (map fst MODELS))"
    unfolding js_includes_iff supported_keys by blast
qed

subsection \<open>Statistics without log files\<close>

lemma js_slice_Nil: "js_slice start [] = []"
  by (simp add: js_slice_def)

text \<open>
  Claim C10. When the directory of the command logs does not exist, or lists no file
  whose name ends with \<open>.jsonl\<close>, \<open>getStats\<close> returns the statistics with all four
  fields 0, for every command filter, every \<open>days\<close> argument and every behaviour of
  \<open>JSON.parse\<close>.
\<close>

theorem no_log_files_zero_stats:
  assumes "logsDir = None \<or>
    (\<exists>dir. logsDir = Some dir \<and> filter (\<lambda>f. endsWith f (ascii ''.jsonl'')) (readdirSync dir) = [])"
  shows "getStats parse logsDir cmd days =
    \<lparr>totalCommands = 0, successCount = 0, errorCount = 0, avgDuration = 0\<rparr>"
  using assms by (auto simp: getStats_def js_slice_Nil)

text \<open>A missing directory, and a directory that holds one file that is not a log.\<close>

theorem no_log_files_zero_stats_witness:
  "getStats (\<lambda>l. None) None (Some (ascii ''detect'')) 7 =
     \<lparr>totalCommands = 0, successCount = 0, errorCount = 0, avgDuration = 0\<rparr> \<and>
   filter (\<lambda>f. endsWith f (ascii ''.jsonl'')) (readdirSync [(ascii ''notes.txt'', ascii ''x'')]) = [] \<and>
   getStats (\<lambda>l. Some \<lparr>command = Some (ascii ''detect''), status = Some (ascii ''success''),
                        duration = Some 12\<rparr>)
     (Some [(ascii ''notes.txt'', ascii ''x'')]) None 0 =
     \<lparr>totalCommands = 0, successCount = 0, errorCount = 0, avgDuration = 0\<rparr>"
proof -
  have f: "filter (\<lambda>f. endsWith f (ascii ''.jsonl'')) (readdirSync [(ascii ''notes.txt'', ascii ''x'')]) = []"
    by (simp add: readdirSync_def endsWith_def ascii_def suffix_to_prefix)
  show ?thesis
    using no_log_files_zero_stats [of None "\<lambda>l. None" "Some (ascii ''detect'')" 7]
      no_log_files_zero_stats [of "Some [(ascii ''notes.txt'', ascii ''x'')]"
        "\<lambda>l. Some \<lparr>command = Some (ascii ''detect''), status = Some (ascii ''success''),
                        duration = Some 12\<rparr>" None 0] f
    by simp
qed

end
